theory Spec2Isabelle
  imports Main "HOL-Library.Log_Nat" "HOL-Library.Word"
begin

section \<open>Go's float64, as far as the backoff calculator uses it\<close>

text \<open>
  A float64 is a rational of at most 53 significant bits, an infinity or NaN (the sign
  of zero is left out: nothing below observes it). Every arithmetic operation of Go is
  the exact operation followed by rounding to the nearest float64, ties to the even
  significand (IEEE 754 binary64: exponent of the last place at least -1074, overflow
  from 2^1024 on).
\<close>

datatype float64 = Finite rat | PosInf | NegInf | NaN

definition ilog2 :: "rat \<Rightarrow> int" where
  \<comment> \<open>for \<open>0 < x\<close>: the \<open>e\<close> with \<open>2^e \<le> x < 2^(e+1)\<close>\<close>
  "ilog2 x =
     (case quotient_of x of
        (p, d) \<Rightarrow> let k = bitlen p - bitlen d in if 2 powi k \<le> x then k else k - 1)"

definition rne :: "rat \<Rightarrow> int" where
  \<comment> \<open>round to the nearest integer, a tie to the even one\<close>
  "rne x =
     (let f = \<lfloor>x\<rfloor>; r = x - of_int f
      in if r < 1 / 2 then f else if 1 / 2 < r then f + 1 else if even f then f else f + 1)"

definition round64 :: "rat \<Rightarrow> float64" where
  "round64 x =
     (if x = 0 then Finite 0
      else
        let q = max (ilog2 \<bar>x\<bar> - 52) (- 1074);
            y = of_int (rne (\<bar>x\<bar> / 2 powi q)) * 2 powi q
        in if 2 powi 1024 \<le> y then (if 0 < x then PosInf else NegInf)
           else Finite (sgn x * y))"

definition float64_of_int :: "int \<Rightarrow> float64" where
  \<comment> \<open>the conversion \<open>float64(n)\<close>\<close>
  "float64_of_int n = round64 (of_int n)"

fun f64_sub :: "float64 \<Rightarrow> float64 \<Rightarrow> float64" where
  "f64_sub NaN _ = NaN"
| "f64_sub _ NaN = NaN"
| "f64_sub (Finite a) (Finite b) = round64 (a - b)"
| "f64_sub (Finite a) PosInf = NegInf"
| "f64_sub (Finite a) NegInf = PosInf"
| "f64_sub PosInf PosInf = NaN"
| "f64_sub PosInf _ = PosInf"
| "f64_sub NegInf NegInf = NaN"
| "f64_sub NegInf _ = NegInf"

fun f64_div :: "float64 \<Rightarrow> float64 \<Rightarrow> float64" where
  "f64_div NaN _ = NaN"
| "f64_div _ NaN = NaN"
| "f64_div (Finite a) (Finite b) =
     (if b = 0 then (if a = 0 then NaN else if 0 < a then PosInf else NegInf)
      else round64 (a / b))"
| "f64_div (Finite a) _ = Finite 0"
| "f64_div PosInf (Finite b) = (if 0 \<le> b then PosInf else NegInf)"
| "f64_div NegInf (Finite b) = (if 0 \<le> b then NegInf else PosInf)"
| "f64_div _ _ = NaN"

fun math_Pow2 :: "float64 \<Rightarrow> float64" where
  \<comment> \<open>\<open>math.Pow(2, y)\<close> of Go's standard library, for the \<open>y\<close> that \<open>float64(n)\<close> yields:
      an integral \<open>y\<close> gives the power of two itself, rounded only where it underflows,
      and \<open>+Inf\<close> where it overflows. (For a \<open>y\<close> that is not integral the exact
      power is irrational; no conversion of an int produces one, and the model answers
      NaN there.)\<close>
  "math_Pow2 NaN = NaN"
| "math_Pow2 PosInf = PosInf"
| "math_Pow2 NegInf = Finite 0"
| "math_Pow2 (Finite y) =
     (if of_int \<lfloor>y\<rfloor> \<noteq> y then NaN
      else if 1024 \<le> \<lfloor>y\<rfloor> then PosInf
      else round64 (2 powi \<lfloor>y\<rfloor>))"

fun f64_less :: "float64 \<Rightarrow> float64 \<Rightarrow> bool" where
  \<comment> \<open>Go's \<open><\<close> on float64: false as soon as one side is NaN\<close>
  "f64_less NaN _ = False"
| "f64_less _ NaN = False"
| "f64_less (Finite x) (Finite y) = (x < y)"
| "f64_less (Finite x) PosInf = True"
| "f64_less (Finite x) NegInf = False"
| "f64_less PosInf _ = False"
| "f64_less NegInf NegInf = False"
| "f64_less NegInf _ = True"

fun f64_le :: "float64 \<Rightarrow> float64 \<Rightarrow> bool" where
  \<comment> \<open>Go's \<open><=\<close> on float64\<close>
  "f64_le NaN _ = False"
| "f64_le _ NaN = False"
| "f64_le (Finite x) (Finite y) = (x \<le> y)"
| "f64_le (Finite x) PosInf = True"
| "f64_le (Finite x) NegInf = False"
| "f64_le PosInf PosInf = True"
| "f64_le PosInf _ = False"
| "f64_le NegInf _ = True"

section \<open>The backoff calculator\<close>

text \<open>
  \<^verbatim>\<open>func expBackoffCalc(attempts int) float64 {
      return (math.Pow(2, float64(attempts)) - 1) / 2 }\<close>
  The same in both variants of the file.
\<close>

definition expBackoffCalc :: "int \<Rightarrow> float64" where
  "expBackoffCalc attempts =
     f64_div (f64_sub (math_Pow2 (float64_of_int attempts)) (Finite 1)) (Finite 2)"


section \<open>Data\<close>

text \<open>
  A Go \<open>error\<close> is modelled by its message (\<open>err.Error()\<close>); \<open>nil\<close> is \<open>None\<close> of
  \<open>error option\<close>. A nil slice or map is \<open>None\<close>.
\<close>

type_synonym error = string
type_synonym byte = "8 word"

text \<open>
  \<open>http.Header\<close>, as the calls \<open>Header.Add(k, v)\<close> that built it, in their order (the
  multimap of net/http groups these values by canonical key and keeps their order).
\<close>

type_synonym Header = "(string \<times> string) list"

text \<open>\<open>ResponseStatus{Text: ..., Code: ...}\<close>: the two fields the source fills.\<close>

record ResponseStatus =
  Text :: string
  Code :: int

record HTTPResponse =
  Body :: "byte list option"
  Status :: ResponseStatus
  Headers :: "Header option"

text \<open>
  What the source reads of an \<open>http.Response\<close>, and what it builds of an \<open>http.Request\<close>.
  \<open>ReqBody\<close> is the reader the caller passed (nil for a GET), the same at every pass. The
  counter \<open>expBackoffAttempts\<close> is a Go \<open>int\<close>; it is an \<open>int\<close> here, and it stays far from
  the bounds of 64 bits as long as the helpers return the counter plus one.
\<close>

record Response =
  StatusLine :: string
  StatusCode :: int
  RespHeader :: Header
  RespBody :: "byte list"

record Req =
  Method :: string
  ReqURL :: string
  ReqHeader :: Header
  ReqBody :: "byte list option"

abbreviation StatusOK :: int where "StatusOK \<equiv> 200"
abbreviation StatusCreated :: int where "StatusCreated \<equiv> 201"
abbreviation StatusForbidden :: int where "StatusForbidden \<equiv> 403"
abbreviation StatusNotFound :: int where "StatusNotFound \<equiv> 404"
abbreviation StatusTooManyRequests :: int where "StatusTooManyRequests \<equiv> 429"

text \<open>
  The state a call works on: the requests handed to \<open>client.Do\<close> so far, the sleeps
  performed so far, and the package-level variable \<open>version\<close> of the legacy variant
  (the current variant has no such variable and never touches the field).
\<close>

record world =
  sent :: "Req list"
  sleeps :: "float64 list"
  version :: string

text \<open>
  What lies outside the two source files: whether \<open>http.NewRequest\<close> rejects a verb and
  URL, what the \<open>k\<close>-th \<open>client.Do\<close> of the process answers, and the four helpers of the
  package that the files call but do not define. A classifier returns its two results
  and the sleeps it performed.
\<close>

record env =
  newRequestErr :: "string \<Rightarrow> string \<Rightarrow> error option"
  transport :: "nat \<Rightarrow> error + Response"
  statusOK :: "Response \<Rightarrow> HTTPResponse \<times> error option"
  statusNotFound :: "Response \<Rightarrow> HTTPResponse \<times> error option"
  statusTooManyRequests :: "Response \<Rightarrow> int \<Rightarrow> (int \<times> error option) \<times> float64 list"
  statusForbidden :: "Response \<Rightarrow> int \<Rightarrow> (int \<times> error option) \<times> float64 list"

definition http_NewRequest :: "env \<Rightarrow> string \<Rightarrow> string \<Rightarrow> byte list option \<Rightarrow> error + Req" where
  \<comment> \<open>\<open>http.NewRequest(verb, URL, body)\<close>: an error, or a request with an empty header\<close>
  "http_NewRequest e verb url body =
     (case newRequestErr e verb url of
        Some err \<Rightarrow> Inl err
      | None \<Rightarrow> Inr \<lparr>Method = verb, ReqURL = url, ReqHeader = [], ReqBody = body\<rparr>)"

definition Header_Add :: "Req \<Rightarrow> string \<Rightarrow> string \<Rightarrow> Req" where
  "Header_Add req k v = req\<lparr>ReqHeader := ReqHeader req @ [(k, v)]\<rparr>"

definition set_headers :: "(string \<times> string) list \<Rightarrow> Req \<Rightarrow> Req" where
  \<comment> \<open>\<open>for k, v := range headers { req.Header.Add(k, v) }\<close>; the list gives the entries of
      the map in the order the range statement visits them\<close>
  "set_headers headers req = fold (\<lambda>(k, v) r. Header_Add r k v) headers req"

definition map_index :: "(string \<times> string) list \<Rightarrow> string \<Rightarrow> string" where
  \<comment> \<open>\<open>headers[k]\<close> on a Go map: the zero value \<open>""\<close> for a missing key\<close>
  "map_index headers k = (case map_of headers k of None \<Rightarrow> [] | Some v \<Rightarrow> v)"

definition client_Do :: "env \<Rightarrow> Req \<Rightarrow> world \<Rightarrow> (error + Response) \<times> world" where
  "client_Do e req w = (transport e (length (sent w)), w\<lparr>sent := sent w @ [req]\<rparr>)"

definition error_response :: "error \<Rightarrow> string \<Rightarrow> HTTPResponse \<times> error option" where
  \<comment> \<open>the return statement the source repeats for every error\<close>
  "error_response err url =
     (\<lparr>Body = None, Status = \<lparr>Text = err @ url, Code = - 1\<rparr>, Headers = None\<rparr>, Some err)"

definition invalid_status_response :: "string \<Rightarrow> error option \<Rightarrow> HTTPResponse \<times> error option" where
  \<comment> \<open>the return statement after the loop\<close>
  "invalid_status_response url err =
     (\<lparr>Body = None, Status = \<lparr>Text = ''Invalid Status Code: '' @ url, Code = - 1\<rparr>, Headers = None\<rparr>,
      err)"

definition classify ::
  "bool \<Rightarrow> (Response \<Rightarrow> int \<Rightarrow> (int \<times> error option) \<times> float64 list) \<Rightarrow>
   Response \<Rightarrow> int \<Rightarrow> world \<Rightarrow> (int \<times> error option) \<times> world" where
  \<comment> \<open>\<open>if resp.StatusCode == c { expBackoffAttempts, err = helper(resp, expBackoffAttempts) }\<close>;
      where the test fails the counter stays and \<open>err\<close> is still the nil of \<open>client.Do\<close>\<close>
  "classify applies helper resp attempts w =
     (if applies
      then (case helper resp attempts of (r, zs) \<Rightarrow> (r, w\<lparr>sleeps := sleeps w @ zs\<rparr>))
      else ((attempts, None), w))"

abbreviation maxBackOffAttempts :: int where "maxBackOffAttempts \<equiv> 8"

definition userAgent :: string where
  "userAgent = ''Golang_italia_backend_bot''"

section \<open>Request, current variant (httpclient.go)\<close>

text \<open>
  One pass through the body of the \<open>for\<close> loop: \<open>Inl\<close> is a \<open>return\<close> inside the body,
  \<open>Inr n\<close> is the end of the body with the counter at \<open>n\<close>. The \<open>err\<close> that the body
  declares with \<open>:=\<close> is a variable of the body; the \<open>err\<close> declared before the loop is
  never assigned. The deferred \<open>resp.Body.Close()\<close> and the log lines change nothing
  that is modelled.
\<close>

definition attempt ::
  "env \<Rightarrow> string \<Rightarrow> string \<Rightarrow> (string \<times> string) list \<Rightarrow> byte list option \<Rightarrow> int \<Rightarrow> world \<Rightarrow>
   ((HTTPResponse \<times> error option) + int) \<times> world" where
  "attempt e url verb headers body expBackoffAttempts w =
     (case http_NewRequest e verb url body of
        Inl err \<Rightarrow> (Inl (error_response err url), w)
      | Inr req \<Rightarrow>
          (case client_Do e (set_headers headers req) w of
             (Inl err, w1) \<Rightarrow> (Inl (error_response err url), w1)
           | (Inr resp, w1) \<Rightarrow>
               if 200 \<le> StatusCode resp \<and> StatusCode resp \<le> 299
               then (Inl (statusOK e resp), w1)
               else if StatusCode resp = StatusNotFound
               then (Inl (statusNotFound e resp), w1)
               else
                 (case classify (StatusCode resp = StatusTooManyRequests)
                         (statusTooManyRequests e) resp expBackoffAttempts w1 of
                    ((_, Some err), w2) \<Rightarrow> (Inl (error_response err url), w2)
                  | ((n2, None), w2) \<Rightarrow>
                      (case classify (StatusCode resp = StatusForbidden)
                              (statusForbidden e) resp n2 w2 of
                         ((_, Some err), w3) \<Rightarrow> (Inl (error_response err url), w3)
                       | ((n3, None), w3) \<Rightarrow> (Inr (n3 + 1), w3)))))"

partial_function (option) Request_loop ::
  "env \<Rightarrow> string \<Rightarrow> string \<Rightarrow> (string \<times> string) list \<Rightarrow> byte list option \<Rightarrow> int \<Rightarrow> world \<Rightarrow>
   ((HTTPResponse \<times> error option) \<times> world) option" where
  "Request_loop e url verb headers body expBackoffAttempts w =
     (if expBackoffAttempts < maxBackOffAttempts
      then (case attempt e url verb headers body expBackoffAttempts w of
              (Inl r, w') \<Rightarrow> Some (r, w')
            | (Inr n, w') \<Rightarrow> Request_loop e url verb headers body n w')
      else Some (invalid_status_response url None, w))"

definition Request ::
  "env \<Rightarrow> string \<Rightarrow> string \<Rightarrow> (string \<times> string) list \<Rightarrow> byte list option \<Rightarrow> world \<Rightarrow>
   ((HTTPResponse \<times> error option) \<times> world) option" where
  \<comment> \<open>\<open>None\<close>: the call does not return\<close>
  "Request e url verb headers body w = Request_loop e url verb headers body 0 w"

section \<open>Request, legacy variant (the second copy of the file, src/unnamed/part_000)\<close>

text \<open>
  The body differs from the current one in four places: after the caller's headers it
  may assign the package-level \<open>version\<close> and adds the \<open>User-Agent\<close> header; it tests the
  status code against 200 and 201 instead of the range 200..299; and it ends without
  \<open>expBackoffAttempts += 1\<close>.
\<close>

definition attempt_legacy ::
  "env \<Rightarrow> string \<Rightarrow> string \<Rightarrow> (string \<times> string) list \<Rightarrow> byte list option \<Rightarrow> int \<Rightarrow> world \<Rightarrow>
   ((HTTPResponse \<times> error option) + int) \<times> world" where
  "attempt_legacy e url verb headers body expBackoffAttempts w =
     (case http_NewRequest e verb url body of
        Inl err \<Rightarrow> (Inl (error_response err url), w)
      | Inr req \<Rightarrow>
          (let req1 = set_headers headers req;
               w0 = (if map_index headers ''version'' \<noteq> []
                     then w\<lparr>version := map_index headers ''version''\<rparr> else w);
               req2 = Header_Add req1 ''User-Agent'' (userAgent @ ''/'' @ version w0)
           in case client_Do e req2 w0 of
             (Inl err, w1) \<Rightarrow> (Inl (error_response err url), w1)
           | (Inr resp, w1) \<Rightarrow>
               if StatusCode resp = StatusOK then (Inl (statusOK e resp), w1)
               else if StatusCode resp = StatusCreated then (Inl (statusOK e resp), w1)
               else if StatusCode resp = StatusNotFound
               then (Inl (statusNotFound e resp), w1)
               else
                 (case classify (StatusCode resp = StatusTooManyRequests)
                         (statusTooManyRequests e) resp expBackoffAttempts w1 of
                    ((_, Some err), w2) \<Rightarrow> (Inl (error_response err url), w2)
                  | ((n2, None), w2) \<Rightarrow>
                      (case classify (StatusCode resp = StatusForbidden)
                              (statusForbidden e) resp n2 w2 of
                         ((_, Some err), w3) \<Rightarrow> (Inl (error_response err url), w3)
                       | ((n3, None), w3) \<Rightarrow> (Inr n3, w3)))))"

partial_function (option) Request_loop_legacy ::
  "env \<Rightarrow> string \<Rightarrow> string \<Rightarrow> (string \<times> string) list \<Rightarrow> byte list option \<Rightarrow> int \<Rightarrow> world \<Rightarrow>
   ((HTTPResponse \<times> error option) \<times> world) option" where
  "Request_loop_legacy e url verb headers body expBackoffAttempts w =
     (if expBackoffAttempts < maxBackOffAttempts
      then (case attempt_legacy e url verb headers body expBackoffAttempts w of
              (Inl r, w') \<Rightarrow> Some (r, w')
            | (Inr n, w') \<Rightarrow> Request_loop_legacy e url verb headers body n w')
      else Some (invalid_status_response url None, w))"

definition Request_legacy ::
  "env \<Rightarrow> string \<Rightarrow> string \<Rightarrow> (string \<times> string) list \<Rightarrow> byte list option \<Rightarrow> world \<Rightarrow>
   ((HTTPResponse \<times> error option) \<times> world) option" where
  "Request_legacy e url verb headers body w = Request_loop_legacy e url verb headers body 0 w"

section \<open>HeaderLink\<close>

text \<open>
  \<open>linkheader.Parse\<close> belongs to another package; it is a parameter here. Of a parsed
  link the source reads \<open>Rel\<close> and \<open>URL\<close>.
\<close>

record Link =
  link_URL :: string
  link_Rel :: string

fun first_with_rel :: "Link list \<Rightarrow> string \<Rightarrow> string" where
  \<comment> \<open>the \<open>for ... range parsedLinks\<close> loop and the \<open>return ""\<close> after it\<close>
  "first_with_rel [] command = []"
| "first_with_rel (link # links) command =
     (if link_Rel link = command then link_URL link else first_with_rel links command)"

definition HeaderLink :: "(string \<Rightarrow> Link list) \<Rightarrow> string \<Rightarrow> string \<Rightarrow> string" where
  "HeaderLink Parse linkHeader command = first_with_rel (Parse linkHeader) command"


section \<open>The helpers the files call, and example servers\<close>

text \<open>
  \<open>statusOK\<close>, \<open>statusNotFound\<close>, \<open>statusTooManyRequests\<close> and \<open>statusForbidden\<close> are called
  by both files and defined in neither. The theorems below take them from \<open>env\<close>; where
  one needs to know what a helper returns it says so in a hypothesis, and the examples
  run the following definitions.
\<close>

definition spec_statusOK :: "Response \<Rightarrow> HTTPResponse \<times> error option" where
  \<comment> \<open>Modelled from the spec: \<open>statusOK\<close> is missing. "drain body into an owned byte buffer,
      return {body, status:{text:status-line, code}, headers} with nil error"\<close>
  "spec_statusOK resp =
     (\<lparr>Body = Some (RespBody resp),
       Status = \<lparr>Text = StatusLine resp, Code = StatusCode resp\<rparr>,
       Headers = Some (RespHeader resp)\<rparr>, None)"

definition spec_statusNotFound :: "Response \<Rightarrow> HTTPResponse \<times> error option" where
  \<comment> \<open>Modelled from the spec: \<open>statusNotFound\<close> is missing. "drain body, return {body,
      status:{text:status-line, code:404}, headers} with nil error"\<close>
  "spec_statusNotFound resp =
     (\<lparr>Body = Some (RespBody resp),
       Status = \<lparr>Text = StatusLine resp, Code = 404\<rparr>,
       Headers = Some (RespHeader resp)\<rparr>, None)"

text \<open>What a classifier finds when it looks for a retry hint in a response.\<close>

datatype retry_hint = NoHint | WaitSeconds float64 | Unreadable error

definition spec_classifier ::
  "(Response \<Rightarrow> retry_hint) \<Rightarrow> Response \<Rightarrow> int \<Rightarrow> (int \<times> error option) \<times> float64 list" where
  \<comment> \<open>Modelled from the spec: \<open>statusTooManyRequests\<close> and \<open>statusForbidden\<close> are missing. "read a
      retry-hint from the response ... to decide the wait duration; otherwise fall back to
      the computed exponential backoff for the current attempt count", "blocks the calling
      context for the chosen duration", "Output: attempts + 1; error is non-nil only if
      reading the retry hint or computing the wait fails". How the hint is read from the
      response is the parameter \<open>hint\<close>.\<close>
  "spec_classifier hint resp attempts =
     (case hint resp of
        NoHint \<Rightarrow> ((attempts + 1, None), [expBackoffCalc attempts])
      | WaitSeconds d \<Rightarrow> ((attempts + 1, None), [d])
      | Unreadable err \<Rightarrow> ((attempts, Some err), []))"

text \<open>
  Example surroundings: \<open>http.NewRequest\<close> rejects a verb with a space in it, the server
  answers the \<open>k\<close>-th request as \<open>answers k\<close> says, the helpers are the ones above and no
  response carries a retry hint. A process starts with nothing sent, no sleep and the
  \<open>version\<close> the legacy file initialises.
\<close>

definition example_env :: "(nat \<Rightarrow> error + Response) \<Rightarrow> env" where
  "example_env answers =
     \<lparr>newRequestErr = (\<lambda>verb url. if CHR '' '' \<in> set verb then Some ''net/http: invalid method '' else None),
      transport = answers,
      statusOK = spec_statusOK,
      statusNotFound = spec_statusNotFound,
      statusTooManyRequests = spec_classifier (\<lambda>resp. NoHint),
      statusForbidden = spec_classifier (\<lambda>resp. NoHint)\<rparr>"

definition response :: "int \<Rightarrow> string \<Rightarrow> Response" where
  "response c line = \<lparr>StatusLine = line, StatusCode = c, RespHeader = [], RespBody = []\<rparr>"

definition initial_world :: world where
  "initial_world = \<lparr>sent = [], sleeps = [], version = ''0.0.1_local''\<rparr>"

definition unclassified :: "int \<Rightarrow> bool" where
  \<comment> \<open>a status code that no branch of the current variant handles\<close>
  "unclassified c \<longleftrightarrow> \<not> (200 \<le> c \<and> c \<le> 299) \<and> c \<noteq> 404 \<and> c \<noteq> 429 \<and> c \<noteq> 403"

definition legacy_version :: "(string \<times> string) list \<Rightarrow> world \<Rightarrow> string" where
  \<comment> \<open>the value of \<open>version\<close> after \<open>if headers["version"] != "" { version = headers["version"] }\<close>\<close>
  "legacy_version headers w =
     (if map_index headers ''version'' \<noteq> [] then map_index headers ''version'' else version w)"

definition reported :: "env \<Rightarrow> string \<Rightarrow> nat \<Rightarrow> world \<Rightarrow> HTTPResponse \<times> error option \<Rightarrow> bool" where
  \<comment> \<open>the relation between status code and error that holds of a pair returned in world
      \<open>w'\<close> by a call that began with \<open>l\<close> requests sent\<close>
  "reported e url l w' x \<longleftrightarrow>
     (snd x \<noteq> None \<longrightarrow> Code (Status (fst x)) = - 1) \<and>
     (Code (Status (fst x)) \<noteq> - 1 \<longrightarrow>
        snd x = None \<and> l < length (sent w') \<and>
        (\<exists>resp. transport e (length (sent w') - 1) = Inr resp \<and>
           StatusCode resp = Code (Status (fst x)))) \<and>
     (Code (Status (fst x)) = - 1 \<and> snd x = None \<longrightarrow> x = invalid_status_response url None)"

definition example_Parse :: "string \<Rightarrow> Link list" where
  \<comment> \<open>a stand-in for \<open>linkheader.Parse\<close> that knows the header of the spec's example and
      finds no link in any other string\<close>
  \<open>example_Parse raw =
     (if raw = ''<https://x/2>; rel="next", <https://x/1>; rel="prev"''
      then [\<lparr>link_URL = ''https://x/2'', link_Rel = ''next''\<rparr>,
            \<lparr>link_URL = ''https://x/1'', link_Rel = ''prev''\<rparr>]
      else [])\<close>

section \<open>The loop, one pass at a time\<close>

lemma set_headers_eq: "set_headers headers req = req\<lparr>ReqHeader := ReqHeader req @ headers\<rparr>"
  unfolding set_headers_def
  by (induction headers arbitrary: req) (auto simp: Header_Add_def)

lemma Request_loop_exit:
  "\<not> n < 8 \<Longrightarrow>
   Request_loop e url verb headers body n w = Some (invalid_status_response url None, w)"
  by (subst Request_loop.simps) simp

lemma Request_loop_step:
  "n < 8 \<Longrightarrow>
   Request_loop e url verb headers body n w =
     (case attempt e url verb headers body n w of
        (Inl r, w') \<Rightarrow> Some (r, w')
      | (Inr n', w') \<Rightarrow> Request_loop e url verb headers body n' w')"
  by (subst Request_loop.simps) simp

lemma Request_loop_legacy_exit:
  "\<not> n < 8 \<Longrightarrow>
   Request_loop_legacy e url verb headers body n w = Some (invalid_status_response url None, w)"
  by (subst Request_loop_legacy.simps) simp

lemma Request_loop_legacy_step:
  "n < 8 \<Longrightarrow>
   Request_loop_legacy e url verb headers body n w =
     (case attempt_legacy e url verb headers body n w of
        (Inl r, w') \<Rightarrow> Some (r, w')
      | (Inr n', w') \<Rightarrow> Request_loop_legacy e url verb headers body n' w')"
  by (subst Request_loop_legacy.simps) simp

lemma attempt_newRequest_fails:
  "newRequestErr e verb url = Some err \<Longrightarrow>
   attempt e url verb headers body n w = (Inl (error_response err url), w)"
  by (simp add: attempt_def http_NewRequest_def)

lemma attempt_send_fails:
  "newRequestErr e verb url = None \<Longrightarrow> transport e (length (sent w)) = Inl err \<Longrightarrow>
   attempt e url verb headers body n w =
     (Inl (error_response err url),
      w\<lparr>sent := sent w @ [\<lparr>Method = verb, ReqURL = url, ReqHeader = headers, ReqBody = body\<rparr>]\<rparr>)"
  by (simp add: attempt_def http_NewRequest_def client_Do_def set_headers_eq)

lemma attempt_unclassified:
  "newRequestErr e verb url = None \<Longrightarrow> transport e (length (sent w)) = Inr resp \<Longrightarrow>
   unclassified (StatusCode resp) \<Longrightarrow>
   attempt e url verb headers body n w =
     (Inr (n + 1),
      w\<lparr>sent := sent w @ [\<lparr>Method = verb, ReqURL = url, ReqHeader = headers, ReqBody = body\<rparr>]\<rparr>)"
  by (simp add: attempt_def http_NewRequest_def client_Do_def set_headers_eq classify_def
      unclassified_def)

section \<open>Evaluating example runs\<close>

lemmas run_simps =
  Request_def Request_legacy_def Request_loop_step Request_loop_exit Request_loop_legacy_step
  Request_loop_legacy_exit attempt_def attempt_legacy_def http_NewRequest_def client_Do_def
  set_headers_def Header_Add_def map_index_def classify_def error_response_def
  invalid_status_response_def example_env_def response_def initial_world_def
  spec_statusOK_def spec_statusNotFound_def spec_classifier_def userAgent_def

lemma run_200:
  "Request (example_env (\<lambda>k. Inr (response 200 ''200 OK''))) ''http://x'' ''GET'' [] None initial_world =
     Some ((\<lparr>Body = Some [], Status = \<lparr>Text = ''200 OK'', Code = 200\<rparr>, Headers = Some []\<rparr>, None),
           initial_world\<lparr>sent :=
             [\<lparr>Method = ''GET'', ReqURL = ''http://x'', ReqHeader = [], ReqBody = None\<rparr>]\<rparr>)"
  by (simp add: run_simps)

section \<open>Errors of construction and of the transport\<close>

lemma attempt_legacy_newRequest_fails:
  "newRequestErr e verb url = Some err \<Longrightarrow>
   attempt_legacy e url verb headers body n w = (Inl (error_response err url), w)"
  by (simp add: attempt_legacy_def http_NewRequest_def)

lemma attempt_legacy_send_fails:
  "newRequestErr e verb url = None \<Longrightarrow> transport e (length (sent w)) = Inl err \<Longrightarrow>
   \<exists>w'. attempt_legacy e url verb headers body n w = (Inl (error_response err url), w') \<and>
        length (sent w') = Suc (length (sent w)) \<and> sleeps w' = sleeps w"
  by (simp add: attempt_legacy_def http_NewRequest_def client_Do_def Let_def)

text \<open>
  C6. At any pass of the loop, in either variant: when \<open>http.NewRequest\<close> fails, Request
  returns at once the envelope with body nil, headers nil, status code -1, status text
  the error message followed by the URL, and the error itself, and the world is
  unchanged (nothing sent, no sleep); when \<open>client.Do\<close> fails, Request returns the same
  envelope with that error, and the only request sent is the one just handed to the
  transport, with no sleep. No further pass follows in either case.
\<close>

theorem Request_errors_not_retried:
  "expBackoffAttempts < 8 \<Longrightarrow>
   (newRequestErr e verb url = Some err \<longrightarrow>
      Request_loop e url verb headers body expBackoffAttempts w =
        Some ((\<lparr>Body = None, Status = \<lparr>Text = err @ url, Code = - 1\<rparr>, Headers = None\<rparr>, Some err),
              w) \<and>
      Request_loop_legacy e url verb headers body expBackoffAttempts w =
        Some ((\<lparr>Body = None, Status = \<lparr>Text = err @ url, Code = - 1\<rparr>, Headers = None\<rparr>, Some err),
              w)) \<and>
   (newRequestErr e verb url = None \<and> transport e (length (sent w)) = Inl err \<longrightarrow>
      Request_loop e url verb headers body expBackoffAttempts w =
        Some ((\<lparr>Body = None, Status = \<lparr>Text = err @ url, Code = - 1\<rparr>, Headers = None\<rparr>, Some err),
              w\<lparr>sent := sent w @
                   [\<lparr>Method = verb, ReqURL = url, ReqHeader = headers, ReqBody = body\<rparr>]\<rparr>) \<and>
      (\<exists>w'. Request_loop_legacy e url verb headers body expBackoffAttempts w =
        Some ((\<lparr>Body = None, Status = \<lparr>Text = err @ url, Code = - 1\<rparr>, Headers = None\<rparr>, Some err),
              w') \<and> length (sent w') = Suc (length (sent w)) \<and> sleeps w' = sleeps w))"
proof (intro conjI impI)
  assume lt: "expBackoffAttempts < 8"
  { assume "newRequestErr e verb url = Some err"
    then show "Request_loop e url verb headers body expBackoffAttempts w =
        Some ((\<lparr>Body = None, Status = \<lparr>Text = err @ url, Code = - 1\<rparr>, Headers = None\<rparr>, Some err), w)"
      and "Request_loop_legacy e url verb headers body expBackoffAttempts w =
        Some ((\<lparr>Body = None, Status = \<lparr>Text = err @ url, Code = - 1\<rparr>, Headers = None\<rparr>, Some err), w)"
      using lt by (simp_all add: Request_loop_step Request_loop_legacy_step attempt_newRequest_fails
          attempt_legacy_newRequest_fails error_response_def) }
  { assume a: "newRequestErr e verb url = None \<and> transport e (length (sent w)) = Inl err"
    then show "Request_loop e url verb headers body expBackoffAttempts w =
        Some ((\<lparr>Body = None, Status = \<lparr>Text = err @ url, Code = - 1\<rparr>, Headers = None\<rparr>, Some err),
              w\<lparr>sent := sent w @
                   [\<lparr>Method = verb, ReqURL = url, ReqHeader = headers, ReqBody = body\<rparr>]\<rparr>)"
      using lt by (simp add: Request_loop_step attempt_send_fails error_response_def)
    from a attempt_legacy_send_fails [of e verb url w err headers body expBackoffAttempts]
    show "\<exists>w'. Request_loop_legacy e url verb headers body expBackoffAttempts w =
        Some ((\<lparr>Body = None, Status = \<lparr>Text = err @ url, Code = - 1\<rparr>, Headers = None\<rparr>, Some err),
              w') \<and> length (sent w') = Suc (length (sent w)) \<and> sleeps w' = sleeps w"
      using lt by (auto simp add: Request_loop_legacy_step error_response_def) }
qed

theorem Request_errors_not_retried_witness:
  "Request (example_env (\<lambda>k. Inl ''timeout '')) ''http://x'' ''BAD VERB'' [] None initial_world =
     Some ((\<lparr>Body = None, Status = \<lparr>Text = ''net/http: invalid method http://x'', Code = - 1\<rparr>,
             Headers = None\<rparr>, Some ''net/http: invalid method ''), initial_world) \<and>
   Request (example_env (\<lambda>k. Inl ''timeout '')) ''http://x'' ''GET'' [] None initial_world =
     Some ((\<lparr>Body = None, Status = \<lparr>Text = ''timeout http://x'', Code = - 1\<rparr>,
             Headers = None\<rparr>, Some ''timeout ''),
           initial_world\<lparr>sent :=
             [\<lparr>Method = ''GET'', ReqURL = ''http://x'', ReqHeader = [], ReqBody = None\<rparr>]\<rparr>) \<and>
   (\<exists>w'. Request_legacy (example_env (\<lambda>k. Inl ''timeout '')) ''http://x'' ''GET'' [] None initial_world =
     Some ((\<lparr>Body = None, Status = \<lparr>Text = ''timeout http://x'', Code = - 1\<rparr>,
             Headers = None\<rparr>, Some ''timeout ''), w') \<and> length (sent w') = 1 \<and> sleeps w' = [])"
  using Request_errors_not_retried [of 0 "example_env (\<lambda>k. Inl ''timeout '')" "''BAD VERB''"
      "''http://x''" "''net/http: invalid method ''" "[]" None initial_world]
    Request_errors_not_retried [of 0 "example_env (\<lambda>k. Inl ''timeout '')" "''GET''"
      "''http://x''" "''timeout ''" "[]" None initial_world]
  by (simp add: Request_def Request_legacy_def example_env_def initial_world_def)

section \<open>Status codes that no branch handles\<close>

text \<open>
  Current variant: a pass that meets an unclassified status (see \<open>attempt_unclassified\<close>)
  ends with the counter one higher, one request sent and no sleep; so a server that only
  ever answers such codes is asked eight times and the call returns the result of the
  exhausted loop.
\<close>

lemma Request_loop_unclassified:
  assumes nr: "newRequestErr e verb url = None"
    and tr: "\<And>k. \<exists>resp. transport e k = Inr resp \<and> unclassified (StatusCode resp)"
  shows "0 \<le> n \<Longrightarrow> n \<le> 8 \<Longrightarrow> Request_loop e url verb headers body n w =
     Some (invalid_status_response url None,
           w\<lparr>sent := sent w @ replicate (nat (8 - n))
                \<lparr>Method = verb, ReqURL = url, ReqHeader = headers, ReqBody = body\<rparr>\<rparr>)"
proof (induction "nat (8 - n)" arbitrary: n w)
  case 0
  then have "n = 8" by simp
  then show ?case by (simp add: Request_loop_exit)
next
  case (Suc m)
  then have lt: "n < 8" by simp
  obtain resp where r: "transport e (length (sent w)) = Inr resp" "unclassified (StatusCode resp)"
    using tr by blast
  let ?w = "w\<lparr>sent := sent w @ [\<lparr>Method = verb, ReqURL = url, ReqHeader = headers, ReqBody = body\<rparr>]\<rparr>"
  have "Request_loop e url verb headers body n w = Request_loop e url verb headers body (n + 1) ?w"
    by (simp add: Request_loop_step [OF lt] attempt_unclassified [OF nr r])
  also have "\<dots> = Some (invalid_status_response url None,
      ?w\<lparr>sent := sent ?w @ replicate (nat (8 - (n + 1)))
         \<lparr>Method = verb, ReqURL = url, ReqHeader = headers, ReqBody = body\<rparr>\<rparr>)"
    using Suc by (intro Suc.hyps) auto
  also have "nat (8 - n) = Suc (nat (8 - (n + 1)))" using lt Suc.prems by simp
  then have "?w\<lparr>sent := sent ?w @ replicate (nat (8 - (n + 1)))
         \<lparr>Method = verb, ReqURL = url, ReqHeader = headers, ReqBody = body\<rparr>\<rparr> =
     w\<lparr>sent := sent w @ replicate (nat (8 - n))
                \<lparr>Method = verb, ReqURL = url, ReqHeader = headers, ReqBody = body\<rparr>\<rparr>"
    by (simp add: replicate_append_same)
  finally show ?case .
qed

lemma Request_unclassified_exhausts:
  assumes "newRequestErr e verb url = None"
    and "\<And>k. \<exists>resp. transport e k = Inr resp \<and> unclassified (StatusCode resp)"
  shows "Request e url verb headers body w =
     Some (invalid_status_response url None,
           w\<lparr>sent := sent w @ replicate 8
                \<lparr>Method = verb, ReqURL = url, ReqHeader = headers, ReqBody = body\<rparr>\<rparr>)"
  unfolding Request_def using Request_loop_unclassified [OF assms, of 0 headers body w] by simp

text \<open>
  Legacy variant: the body has no increment of its own, so the same pass ends with the
  counter unchanged, and a call that only ever meets such codes does not return.
\<close>

lemma attempt_legacy_unclassified:
  "newRequestErr e verb url = None \<Longrightarrow> transport e (length (sent w)) = Inr resp \<Longrightarrow>
   StatusCode resp \<notin> {200, 201, 404, 429, 403} \<Longrightarrow>
   fst (attempt_legacy e url verb headers body n w) = Inr n"
  by (simp add: attempt_legacy_def http_NewRequest_def client_Do_def classify_def Let_def)

lemma Request_loop_legacy_never_returns:
  assumes run: "Request_loop_legacy e url verb headers body n w = Some y"
    and nr: "newRequestErr e verb url = None"
    and tr: "\<And>k. \<exists>resp. transport e k = Inr resp \<and> StatusCode resp \<notin> {200, 201, 404, 429, 403}"
  shows "\<not> n < 8"
  using run nr tr
proof (induction e url verb headers body n w y rule: Request_loop_legacy.raw_induct [rotated 1, consumes 1])
  case (1 loop e url verb headers body n w y)
  show ?case
  proof
    assume lt: "n < 8"
    obtain resp where r: "transport e (length (sent w)) = Inr resp"
      "StatusCode resp \<notin> {200, 201, 404, 429, 403}"
      using "1.prems" by blast
    obtain w' where a: "attempt_legacy e url verb headers body n w = (Inr n, w')"
      using attempt_legacy_unclassified [OF "1.prems"(1) r, of headers body n]
      by (cases "attempt_legacy e url verb headers body n w") auto
    from "1.hyps" lt a have "loop e url verb headers body n w' = Some y" by simp
    from "1.IH" [OF this "1.prems"] lt show False by simp
  qed
qed

text \<open>
  C3. The legacy variant against a server that answers 500 to every request: the call
  does not return (every pass leaves the counter at 0), where the claim has it return the
  result of the exhausted loop after at most eight passes.
\<close>

theorem Request_legacy_unclassified_never_returns:
  "Request_legacy (example_env (\<lambda>k. Inr (response 500 ''500 Internal Server Error'')))
     ''http://x'' ''GET'' [] None initial_world = None"
proof (cases "Request_legacy (example_env (\<lambda>k. Inr (response 500 ''500 Internal Server Error'')))
     ''http://x'' ''GET'' [] None initial_world")
  case None
  then show ?thesis .
next
  case (Some y)
  then have "\<not> (0::int) < 8"
    unfolding Request_legacy_def
    by (rule Request_loop_legacy_never_returns) (simp_all add: example_env_def response_def)
  then show ?thesis by simp
qed

section \<open>The result after the loop\<close>

lemma Request_loop_result:
  assumes "Request_loop e url verb headers body n w = Some y"
  shows "fst y = invalid_status_response url None \<or>
         (\<exists>m w1. m < 8 \<and> attempt e url verb headers body m w1 = (Inl (fst y), snd y))"
  using assms
proof (induction e url verb headers body n w y rule: Request_loop.raw_induct [rotated 1, consumes 1])
  case (1 loop e url verb headers body n w y)
  show ?case
  proof (cases "n < 8")
    case False
    with "1.hyps" show ?thesis by auto
  next
    case True
    obtain x w1 where a: "attempt e url verb headers body n w = (x, w1)"
      by (cases "attempt e url verb headers body n w")
    show ?thesis
    proof (cases x)
      case (Inl r)
      with "1.hyps" True a have "y = (r, w1)" by simp
      with a Inl True show ?thesis by auto
    next
      case (Inr n')
      with "1.hyps" True a have "loop e url verb headers body n' w1 = Some y" by simp
      from "1.IH" [OF this] show ?thesis .
    qed
  qed
qed

lemma Request_loop_legacy_result:
  assumes "Request_loop_legacy e url verb headers body n w = Some y"
  shows "fst y = invalid_status_response url None \<or>
         (\<exists>m w1. m < 8 \<and> attempt_legacy e url verb headers body m w1 = (Inl (fst y), snd y))"
  using assms
proof (induction e url verb headers body n w y rule: Request_loop_legacy.raw_induct [rotated 1, consumes 1])
  case (1 loop e url verb headers body n w y)
  show ?case
  proof (cases "n < 8")
    case False
    with "1.hyps" show ?thesis by auto
  next
    case True
    obtain x w1 where a: "attempt_legacy e url verb headers body n w = (x, w1)"
      by (cases "attempt_legacy e url verb headers body n w")
    show ?thesis
    proof (cases x)
      case (Inl r)
      with "1.hyps" True a have "y = (r, w1)" by simp
      with a Inl True show ?thesis by auto
    next
      case (Inr n')
      with "1.hyps" True a have "loop e url verb headers body n' w1 = Some y" by simp
      from "1.IH" [OF this] show ?thesis .
    qed
  qed
qed

text \<open>
  C7. Whenever the loop condition fails (the counter is not below 8), in either variant,
  Request returns the envelope with body nil, headers nil, status text
  "Invalid Status Code: " followed by the URL and status code -1, together with the \<open>err\<close>
  declared before the loop, which is nil: every error a pass observes and does not
  return is nil, and the variable of that name inside the body is another one. And every
  pair a call returns is either this one or the operand of a \<open>return\<close> inside a pass.
\<close>

theorem Request_exhausted_result:
  "(\<not> expBackoffAttempts < 8 \<longrightarrow>
      Request_loop e url verb headers body expBackoffAttempts w =
        Some ((\<lparr>Body = None, Status = \<lparr>Text = ''Invalid Status Code: '' @ url, Code = - 1\<rparr>,
                Headers = None\<rparr>, None), w) \<and>
      Request_loop_legacy e url verb headers body expBackoffAttempts w =
        Some ((\<lparr>Body = None, Status = \<lparr>Text = ''Invalid Status Code: '' @ url, Code = - 1\<rparr>,
                Headers = None\<rparr>, None), w)) \<and>
   (Request e url verb headers body w = Some (x, w') \<longrightarrow>
      x = (\<lparr>Body = None, Status = \<lparr>Text = ''Invalid Status Code: '' @ url, Code = - 1\<rparr>,
            Headers = None\<rparr>, None) \<or>
      (\<exists>n w1. n < 8 \<and> attempt e url verb headers body n w1 = (Inl x, w'))) \<and>
   (Request_legacy e url verb headers body w = Some (x, w') \<longrightarrow>
      x = (\<lparr>Body = None, Status = \<lparr>Text = ''Invalid Status Code: '' @ url, Code = - 1\<rparr>,
            Headers = None\<rparr>, None) \<or>
      (\<exists>n w1. n < 8 \<and> attempt_legacy e url verb headers body n w1 = (Inl x, w')))"
  using Request_loop_result [of e url verb headers body 0 w "(x, w')"]
    Request_loop_legacy_result [of e url verb headers body 0 w "(x, w')"]
  by (simp add: Request_loop_exit Request_loop_legacy_exit invalid_status_response_def
      Request_def Request_legacy_def)

theorem Request_exhausted_result_witness:
  "Request_loop (example_env (\<lambda>k. Inr (response 500 ''500 ''))) ''http://x'' ''GET'' [] None 8
     initial_world =
     Some ((\<lparr>Body = None, Status = \<lparr>Text = ''Invalid Status Code: http://x'', Code = - 1\<rparr>,
             Headers = None\<rparr>, None), initial_world) \<and>
   Request_loop_legacy (example_env (\<lambda>k. Inr (response 500 ''500 ''))) ''http://x'' ''GET'' [] None 9
     initial_world =
     Some ((\<lparr>Body = None, Status = \<lparr>Text = ''Invalid Status Code: http://x'', Code = - 1\<rparr>,
             Headers = None\<rparr>, None), initial_world) \<and>
   (\<exists>n w1. n < 8 \<and>
      attempt (example_env (\<lambda>k. Inr (response 200 ''200 OK''))) ''http://x'' ''GET'' [] None n w1 =
        (Inl (\<lparr>Body = Some [], Status = \<lparr>Text = ''200 OK'', Code = 200\<rparr>, Headers = Some []\<rparr>, None),
         initial_world\<lparr>sent :=
           [\<lparr>Method = ''GET'', ReqURL = ''http://x'', ReqHeader = [], ReqBody = None\<rparr>]\<rparr>))"
  using Request_exhausted_result [of 8 "example_env (\<lambda>k. Inr (response 500 ''500 ''))"
      "''http://x''" "''GET''" "[]" None initial_world]
    Request_exhausted_result [of 9 "example_env (\<lambda>k. Inr (response 500 ''500 ''))"
      "''http://x''" "''GET''" "[]" None initial_world]
    Request_exhausted_result [of 0 "example_env (\<lambda>k. Inr (response 200 ''200 OK''))"
      "''http://x''" "''GET''" "[]" None initial_world
      "(\<lparr>Body = Some [], Status = \<lparr>Text = ''200 OK'', Code = 200\<rparr>, Headers = Some []\<rparr>, None)"
      "initial_world\<lparr>sent :=
           [\<lparr>Method = ''GET'', ReqURL = ''http://x'', ReqHeader = [], ReqBody = None\<rparr>]\<rparr>"]
    run_200
  by simp


section \<open>What a pass sends\<close>

lemma classify_frame:
  "classify b h resp n w = (r, w') \<Longrightarrow> sent w' = sent w \<and> version w' = version w"
  by (auto simp: classify_def split: if_splits prod.splits)

lemma attempt_legacy_world:
  assumes nr: "newRequestErr e verb url = None"
    and a: "attempt_legacy e url verb headers body n w = (x, w')"
  shows "sent w' = sent w @
           [\<lparr>Method = verb, ReqURL = url,
             ReqHeader = headers @ [(''User-Agent'', userAgent @ ''/'' @ legacy_version headers w)],
             ReqBody = body\<rparr>] \<and>
         version w' = legacy_version headers w"
proof -
  let ?w0 = "if map_index headers ''version'' \<noteq> [] then w\<lparr>version := map_index headers ''version''\<rparr> else w"
  let ?req = "\<lparr>Method = verb, ReqURL = url,
             ReqHeader = headers @ [(''User-Agent'', userAgent @ ''/'' @ legacy_version headers w)],
             ReqBody = body\<rparr>"
  let ?w1 = "?w0\<lparr>sent := sent ?w0 @ [?req]\<rparr>"
  have w1: "sent ?w1 = sent w @ [?req]" "version ?w1 = legacy_version headers w"
    by (simp_all add: legacy_version_def)
  have do: "client_Do e (Header_Add (set_headers headers \<lparr>Method = verb, ReqURL = url, ReqHeader = [], ReqBody = body\<rparr>)
        ''User-Agent'' (userAgent @ ''/'' @ version ?w0)) ?w0 = (transport e (length (sent w)), ?w1)"
    by (simp add: client_Do_def set_headers_eq Header_Add_def legacy_version_def)
  show ?thesis
  proof (cases "transport e (length (sent w))")
    case (Inl err)
    with a nr do have "w' = ?w1"
      by (simp add: attempt_legacy_def http_NewRequest_def Let_def)
    with w1 show ?thesis by simp
  next
    case (Inr resp)
    obtain r2 w2 where c2: "classify (StatusCode resp = 429) (statusTooManyRequests e) resp n ?w1 = (r2, w2)"
      by (cases "classify (StatusCode resp = 429) (statusTooManyRequests e) resp n ?w1")
    obtain r3 w3 where c3: "classify (StatusCode resp = 403) (statusForbidden e) resp (fst r2) w2 = (r3, w3)"
      by (cases "classify (StatusCode resp = 403) (statusForbidden e) resp (fst r2) w2")
    from classify_frame [OF c2] classify_frame [OF c3] w1
    have f: "sent w2 = sent w @ [?req]" "version w2 = legacy_version headers w"
      "sent w3 = sent w @ [?req]" "version w3 = legacy_version headers w"
      by simp_all
    from a nr do Inr c2 c3 have "w' = ?w1 \<or> w' = w2 \<or> w' = w3"
      by (cases r2; cases r3)
        (auto simp add: attempt_legacy_def http_NewRequest_def Let_def split: if_splits option.splits)
    with w1 f show ?thesis by auto
  qed
qed


lemma attempt_world:
  assumes nr: "newRequestErr e verb url = None"
    and a: "attempt e url verb headers body n w = (x, w')"
  shows "sent w' = sent w @ [\<lparr>Method = verb, ReqURL = url, ReqHeader = headers, ReqBody = body\<rparr>] \<and>
         version w' = version w"
proof -
  let ?req = "\<lparr>Method = verb, ReqURL = url, ReqHeader = headers, ReqBody = body\<rparr>"
  let ?w1 = "w\<lparr>sent := sent w @ [?req]\<rparr>"
  have do: "client_Do e (set_headers headers \<lparr>Method = verb, ReqURL = url, ReqHeader = [], ReqBody = body\<rparr>) w
      = (transport e (length (sent w)), ?w1)"
    by (simp add: client_Do_def set_headers_eq)
  show ?thesis
  proof (cases "transport e (length (sent w))")
    case (Inl err)
    with a nr do have "w' = ?w1"
      by (simp add: attempt_def http_NewRequest_def)
    then show ?thesis by simp
  next
    case (Inr resp)
    obtain r2 w2 where c2: "classify (StatusCode resp = 429) (statusTooManyRequests e) resp n ?w1 = (r2, w2)"
      by (cases "classify (StatusCode resp = 429) (statusTooManyRequests e) resp n ?w1")
    obtain r3 w3 where c3: "classify (StatusCode resp = 403) (statusForbidden e) resp (fst r2) w2 = (r3, w3)"
      by (cases "classify (StatusCode resp = 403) (statusForbidden e) resp (fst r2) w2")
    from classify_frame [OF c2] classify_frame [OF c3]
    have f: "sent w2 = sent w @ [?req]" "version w2 = version w"
      "sent w3 = sent w @ [?req]" "version w3 = version w"
      by simp_all
    from a nr do Inr c2 c3 have "w' = ?w1 \<or> w' = w2 \<or> w' = w3"
      by (cases r2; cases r3)
        (auto simp add: attempt_def http_NewRequest_def split: if_splits option.splits)
    with f show ?thesis by auto
  qed
qed

text \<open>
  C8. In the legacy variant every pass that gets as far as sending hands the transport
  one request whose header entries are the caller's, in the order the range statement
  visits them, followed by \<open>User-Agent\<close> with the constant identity string, a slash and
  the version in force; the current variant hands over a request with the caller's
  entries only. A pass whose construction fails sends nothing.
\<close>

theorem User_Agent_attached:
  "(newRequestErr e verb url = None \<longrightarrow>
      sent (snd (attempt_legacy e url verb headers body n w)) =
        sent w @ [\<lparr>Method = verb, ReqURL = url,
                   ReqHeader = headers @
                     [(''User-Agent'', ''Golang_italia_backend_bot/'' @ legacy_version headers w)],
                   ReqBody = body\<rparr>] \<and>
      sent (snd (attempt e url verb headers body n w)) =
        sent w @ [\<lparr>Method = verb, ReqURL = url, ReqHeader = headers, ReqBody = body\<rparr>]) \<and>
   (newRequestErr e verb url \<noteq> None \<longrightarrow>
      sent (snd (attempt_legacy e url verb headers body n w)) = sent w \<and>
      sent (snd (attempt e url verb headers body n w)) = sent w)"
proof (cases "newRequestErr e verb url")
  case None
  from attempt_legacy_world [OF None surjective_pairing, where headers = headers and body = body and n = n and w = w]
    attempt_world [OF None surjective_pairing, where headers = headers and body = body and n = n and w = w]
  show ?thesis using None by (simp add: userAgent_def)
next
  case (Some err)
  then show ?thesis by (simp add: attempt_legacy_newRequest_fails attempt_newRequest_fails)
qed

theorem User_Agent_attached_witness:
  "sent (snd (attempt_legacy (example_env (\<lambda>k. Inr (response 200 ''200 OK''))) ''http://x'' ''GET''
      [(''Accept'', ''text/html'')] None 0 initial_world)) =
     [\<lparr>Method = ''GET'', ReqURL = ''http://x'',
       ReqHeader = [(''Accept'', ''text/html''), (''User-Agent'', ''Golang_italia_backend_bot/0.0.1_local'')],
       ReqBody = None\<rparr>] \<and>
   sent (snd (attempt (example_env (\<lambda>k. Inr (response 200 ''200 OK''))) ''http://x'' ''GET''
      [(''Accept'', ''text/html'')] None 0 initial_world)) =
     [\<lparr>Method = ''GET'', ReqURL = ''http://x'', ReqHeader = [(''Accept'', ''text/html'')],
       ReqBody = None\<rparr>] \<and>
   sent (snd (attempt_legacy (example_env (\<lambda>k. Inr (response 200 ''200 OK''))) ''http://x'' ''BAD VERB''
      [(''Accept'', ''text/html'')] None 0 initial_world)) = []"
  using User_Agent_attached [of "example_env (\<lambda>k. Inr (response 200 ''200 OK''))" "''GET''" "''http://x''"
      "[(''Accept'', ''text/html'')]" None 0 initial_world]
    User_Agent_attached [of "example_env (\<lambda>k. Inr (response 200 ''200 OK''))" "''BAD VERB''" "''http://x''"
      "[(''Accept'', ''text/html'')]" None 0 initial_world]
  by (simp add: example_env_def initial_world_def legacy_version_def map_index_def)

text \<open>
  The current variant attaches no \<open>User-Agent\<close>: the one request of this call carries the
  caller's \<open>Accept\<close> entry and nothing else.
\<close>

theorem Request_sends_no_User_Agent:
  "Request (example_env (\<lambda>k. Inr (response 200 ''200 OK''))) ''http://x'' ''GET''
      [(''Accept'', ''text/html'')] None initial_world =
     Some ((\<lparr>Body = Some [], Status = \<lparr>Text = ''200 OK'', Code = 200\<rparr>, Headers = Some []\<rparr>, None),
           initial_world\<lparr>sent :=
             [\<lparr>Method = ''GET'', ReqURL = ''http://x'', ReqHeader = [(''Accept'', ''text/html'')],
               ReqBody = None\<rparr>]\<rparr>)"
  by (simp add: run_simps)

section \<open>The version variable of the legacy variant\<close>

lemma legacy_version_idem:
  "version w1 = legacy_version headers w \<Longrightarrow> legacy_version headers w1 = legacy_version headers w"
  by (simp add: legacy_version_def)

lemma Request_loop_legacy_world:
  assumes run: "Request_loop_legacy e url verb headers body n w = Some y"
    and nr: "newRequestErr e verb url = None"
  shows "\<exists>k. sent (snd y) = sent w @ replicate k
             \<lparr>Method = verb, ReqURL = url,
              ReqHeader = headers @ [(''User-Agent'', userAgent @ ''/'' @ legacy_version headers w)],
              ReqBody = body\<rparr> \<and>
           (if n < 8 then 0 < k \<and> version (snd y) = legacy_version headers w
            else k = 0 \<and> version (snd y) = version w)"
  using run nr
proof (induction e url verb headers body n w y rule: Request_loop_legacy.raw_induct [rotated 1, consumes 1])
  case (1 loop e url verb headers body n w y)
  let ?R = "\<lambda>w. \<lparr>Method = verb, ReqURL = url,
              ReqHeader = headers @ [(''User-Agent'', userAgent @ ''/'' @ legacy_version headers w)],
              ReqBody = body\<rparr>"
  show ?case
  proof (cases "n < 8")
    case False
    with "1.hyps" have "y = (invalid_status_response url None, w)" by simp
    with False show ?thesis by simp
  next
    case True
    obtain x w1 where a: "attempt_legacy e url verb headers body n w = (x, w1)"
      by (cases "attempt_legacy e url verb headers body n w")
    from attempt_legacy_world [OF "1.prems" a]
    have w1: "sent w1 = sent w @ [?R w]" "version w1 = legacy_version headers w" by simp_all
    show ?thesis
    proof (cases x)
      case (Inl r)
      with "1.hyps" True a have "y = (r, w1)" by simp
      with w1 True show ?thesis by (intro exI [of _ 1]) simp
    next
      case (Inr n')
      with "1.hyps" True a have "loop e url verb headers body n' w1 = Some y" by simp
      from "1.IH" [OF this "1.prems"] obtain k where
        k: "sent (snd y) = sent w1 @ replicate k (?R w1)"
          "if n' < 8 then 0 < k \<and> version (snd y) = legacy_version headers w1
           else k = 0 \<and> version (snd y) = version w1"
        by blast
      have same: "legacy_version headers w1 = legacy_version headers w"
        using w1(2) by (rule legacy_version_idem)
      have "sent (snd y) = sent w @ replicate (Suc k) (?R w)"
        using k(1) w1(1) same by (simp add: replicate_append_same)
      moreover have "version (snd y) = legacy_version headers w"
        using k(2) same w1(2) by (simp split: if_splits)
      ultimately show ?thesis using True by (intro exI [of _ "Suc k"]) simp
    qed
  qed
qed

text \<open>
  C10. In the legacy variant every pass whose request can be constructed leaves
  \<open>version\<close> at the caller's non-empty \<open>version\<close> entry, or unchanged when there is none;
  so does a call that returns, and every request it sent carries \<open>User-Agent\<close> with
  that value: the header a call attaches depends on the \<open>version\<close> that earlier calls
  left behind.
\<close>

theorem version_overwritten:
  "newRequestErr e verb url = None \<Longrightarrow>
   version (snd (attempt_legacy e url verb headers body n w)) =
     (if map_index headers ''version'' \<noteq> [] then map_index headers ''version'' else version w) \<and>
   (Request_legacy e url verb headers body w = Some (r, w') \<longrightarrow>
      version w' = (if map_index headers ''version'' \<noteq> [] then map_index headers ''version'' else version w) \<and>
      (\<exists>k>0. sent w' = sent w @ replicate k
         \<lparr>Method = verb, ReqURL = url,
          ReqHeader = headers @
            [(''User-Agent'', ''Golang_italia_backend_bot/'' @
                (if map_index headers ''version'' \<noteq> [] then map_index headers ''version'' else version w))],
          ReqBody = body\<rparr>))"
  using Request_loop_legacy_world [of e url verb headers body 0 w "(r, w')"]
    attempt_legacy_world [OF _ surjective_pairing, where e = e and verb = verb and url = url
      and headers = headers and body = body and n = n and w = w]
  by (auto simp: Request_legacy_def legacy_version_def userAgent_def)

lemma legacy_run_with_version:
  "Request_legacy (example_env (\<lambda>k. Inr (response 200 ''200 OK''))) ''http://x'' ''GET''
      [(''version'', ''9'')] None initial_world =
     Some ((\<lparr>Body = Some [], Status = \<lparr>Text = ''200 OK'', Code = 200\<rparr>, Headers = Some []\<rparr>, None),
           \<lparr>sent = [\<lparr>Method = ''GET'', ReqURL = ''http://x'',
                     ReqHeader = [(''version'', ''9''), (''User-Agent'', ''Golang_italia_backend_bot/9'')],
                     ReqBody = None\<rparr>],
            sleeps = [], version = ''9''\<rparr>)"
  by (simp add: run_simps)

lemma legacy_run_after:
  "Request_legacy (example_env (\<lambda>k. Inr (response 200 ''200 OK''))) ''http://x'' ''GET'' [] None
      \<lparr>sent = [\<lparr>Method = ''GET'', ReqURL = ''http://x'',
                     ReqHeader = [(''version'', ''9''), (''User-Agent'', ''Golang_italia_backend_bot/9'')],
                     ReqBody = None\<rparr>],
            sleeps = [], version = ''9''\<rparr> =
     Some ((\<lparr>Body = Some [], Status = \<lparr>Text = ''200 OK'', Code = 200\<rparr>, Headers = Some []\<rparr>, None),
           \<lparr>sent = [\<lparr>Method = ''GET'', ReqURL = ''http://x'',
                     ReqHeader = [(''version'', ''9''), (''User-Agent'', ''Golang_italia_backend_bot/9'')],
                     ReqBody = None\<rparr>,
                    \<lparr>Method = ''GET'', ReqURL = ''http://x'',
                     ReqHeader = [(''User-Agent'', ''Golang_italia_backend_bot/9'')],
                     ReqBody = None\<rparr>],
            sleeps = [], version = ''9''\<rparr>)"
  by (simp add: run_simps)

lemma legacy_run_fresh:
  "Request_legacy (example_env (\<lambda>k. Inr (response 200 ''200 OK''))) ''http://x'' ''GET'' [] None
      initial_world =
     Some ((\<lparr>Body = Some [], Status = \<lparr>Text = ''200 OK'', Code = 200\<rparr>, Headers = Some []\<rparr>, None),
           \<lparr>sent = [\<lparr>Method = ''GET'', ReqURL = ''http://x'',
                     ReqHeader = [(''User-Agent'', ''Golang_italia_backend_bot/0.0.1_local'')],
                     ReqBody = None\<rparr>],
            sleeps = [], version = ''0.0.1_local''\<rparr>)"
  by (simp add: run_simps)


theorem version_overwritten_witness:
  "Request_legacy (example_env (\<lambda>k. Inr (response 200 ''200 OK''))) ''http://x'' ''GET''
      [(''version'', ''9'')] None initial_world =
     Some ((\<lparr>Body = Some [], Status = \<lparr>Text = ''200 OK'', Code = 200\<rparr>, Headers = Some []\<rparr>, None),
           \<lparr>sent = [\<lparr>Method = ''GET'', ReqURL = ''http://x'',
                     ReqHeader = [(''version'', ''9''), (''User-Agent'', ''Golang_italia_backend_bot/9'')],
                     ReqBody = None\<rparr>],
            sleeps = [], version = ''9''\<rparr>) \<and>
   Request_legacy (example_env (\<lambda>k. Inr (response 200 ''200 OK''))) ''http://x'' ''GET'' [] None
      \<lparr>sent = [\<lparr>Method = ''GET'', ReqURL = ''http://x'',
                ReqHeader = [(''version'', ''9''), (''User-Agent'', ''Golang_italia_backend_bot/9'')],
                ReqBody = None\<rparr>],
       sleeps = [], version = ''9''\<rparr> =
     Some ((\<lparr>Body = Some [], Status = \<lparr>Text = ''200 OK'', Code = 200\<rparr>, Headers = Some []\<rparr>, None),
           \<lparr>sent = [\<lparr>Method = ''GET'', ReqURL = ''http://x'',
                     ReqHeader = [(''version'', ''9''), (''User-Agent'', ''Golang_italia_backend_bot/9'')],
                     ReqBody = None\<rparr>,
                    \<lparr>Method = ''GET'', ReqURL = ''http://x'',
                     ReqHeader = [(''User-Agent'', ''Golang_italia_backend_bot/9'')],
                     ReqBody = None\<rparr>],
            sleeps = [], version = ''9''\<rparr>) \<and>
   Request_legacy (example_env (\<lambda>k. Inr (response 200 ''200 OK''))) ''http://x'' ''GET'' [] None
      initial_world =
     Some ((\<lparr>Body = Some [], Status = \<lparr>Text = ''200 OK'', Code = 200\<rparr>, Headers = Some []\<rparr>, None),
           \<lparr>sent = [\<lparr>Method = ''GET'', ReqURL = ''http://x'',
                     ReqHeader = [(''User-Agent'', ''Golang_italia_backend_bot/0.0.1_local'')],
                     ReqBody = None\<rparr>],
            sleeps = [], version = ''0.0.1_local''\<rparr>)"
  using version_overwritten [of "example_env (\<lambda>k. Inr (response 200 ''200 OK''))" "''GET''" "''http://x''"
      "[(''version'', ''9'')]" None 0 initial_world
      "(\<lparr>Body = Some [], Status = \<lparr>Text = ''200 OK'', Code = 200\<rparr>, Headers = Some []\<rparr>, None)"
      "\<lparr>sent = [\<lparr>Method = ''GET'', ReqURL = ''http://x'',
                 ReqHeader = [(''version'', ''9''), (''User-Agent'', ''Golang_italia_backend_bot/9'')],
                 ReqBody = None\<rparr>],
        sleeps = [], version = ''9''\<rparr>"]
    legacy_run_with_version legacy_run_after legacy_run_fresh
  by (simp add: example_env_def)

text \<open>
  A call whose construction fails returns before the assignment: \<open>version\<close> keeps its
  value although the headers carry a non-empty \<open>version\<close> entry.
\<close>

theorem version_kept_when_construction_fails:
  "Request_legacy (example_env (\<lambda>k. Inr (response 200 ''200 OK''))) ''http://x'' ''BAD VERB''
      [(''version'', ''9'')] None initial_world =
     Some ((\<lparr>Body = None, Status = \<lparr>Text = ''net/http: invalid method http://x'', Code = - 1\<rparr>,
             Headers = None\<rparr>, Some ''net/http: invalid method ''), initial_world) \<and>
   version initial_world = ''0.0.1_local''"
  by (simp add: run_simps)

section \<open>Success\<close>

lemma attempt_success:
  "newRequestErr e verb url = None \<Longrightarrow> transport e (length (sent w)) = Inr resp \<Longrightarrow>
   200 \<le> StatusCode resp \<Longrightarrow> StatusCode resp \<le> 299 \<Longrightarrow>
   attempt e url verb headers body n w =
     (Inl (statusOK e resp),
      w\<lparr>sent := sent w @ [\<lparr>Method = verb, ReqURL = url, ReqHeader = headers, ReqBody = body\<rparr>]\<rparr>)"
  by (simp add: attempt_def http_NewRequest_def client_Do_def set_headers_eq)

lemma attempt_legacy_success:
  "newRequestErr e verb url = None \<Longrightarrow> transport e (length (sent w)) = Inr resp \<Longrightarrow>
   StatusCode resp = 200 \<or> StatusCode resp = 201 \<Longrightarrow>
   \<exists>w'. attempt_legacy e url verb headers body n w = (Inl (statusOK e resp), w') \<and>
        length (sent w') = Suc (length (sent w)) \<and> sleeps w' = sleeps w"
  by (auto simp add: attempt_legacy_def http_NewRequest_def client_Do_def Let_def)

text \<open>
  C5. When the request can be constructed and the response to it has a status code in
  200..299, the current variant returns what \<open>statusOK\<close> makes of that response, with that
  one request sent and no sleep; the legacy variant does so for 200 and 201. With the
  helper as the spec describes it the error is nil and the status code is the
  response's.
\<close>

theorem success_returns_at_once:
  "newRequestErr e verb url = None \<Longrightarrow> transport e (length (sent w)) = Inr resp \<Longrightarrow>
   (200 \<le> StatusCode resp \<and> StatusCode resp \<le> 299 \<longrightarrow>
      Request e url verb headers body w =
        Some (statusOK e resp,
              w\<lparr>sent := sent w @
                   [\<lparr>Method = verb, ReqURL = url, ReqHeader = headers, ReqBody = body\<rparr>]\<rparr>)) \<and>
   (StatusCode resp = 200 \<or> StatusCode resp = 201 \<longrightarrow>
      (\<exists>w'. Request_legacy e url verb headers body w = Some (statusOK e resp, w') \<and>
            length (sent w') = Suc (length (sent w)) \<and> sleeps w' = sleeps w)) \<and>
   (statusOK e = spec_statusOK \<longrightarrow>
      snd (statusOK e resp) = None \<and> Code (Status (fst (statusOK e resp))) = StatusCode resp)"
proof (intro conjI impI)
  assume nr: "newRequestErr e verb url = None" and tr: "transport e (length (sent w)) = Inr resp"
  { assume "200 \<le> StatusCode resp \<and> StatusCode resp \<le> 299"
    then show "Request e url verb headers body w =
        Some (statusOK e resp,
              w\<lparr>sent := sent w @
                   [\<lparr>Method = verb, ReqURL = url, ReqHeader = headers, ReqBody = body\<rparr>]\<rparr>)"
      by (simp add: Request_def Request_loop_step attempt_success [OF nr tr]) }
  { assume "StatusCode resp = 200 \<or> StatusCode resp = 201"
    from attempt_legacy_success [OF nr tr this, of headers body 0]
    show "\<exists>w'. Request_legacy e url verb headers body w = Some (statusOK e resp, w') \<and>
            length (sent w') = Suc (length (sent w)) \<and> sleeps w' = sleeps w"
      by (auto simp add: Request_legacy_def Request_loop_legacy_step) }
  { assume "statusOK e = spec_statusOK"
    then show "snd (statusOK e resp) = None" "Code (Status (fst (statusOK e resp))) = StatusCode resp"
      by (simp_all add: spec_statusOK_def) }
qed

theorem success_returns_at_once_witness:
  "Request (example_env (\<lambda>k. Inr (response 204 ''204 No Content''))) ''http://x'' ''GET'' [] None
      initial_world =
     Some ((\<lparr>Body = Some [], Status = \<lparr>Text = ''204 No Content'', Code = 204\<rparr>, Headers = Some []\<rparr>,
            None),
           initial_world\<lparr>sent :=
             [\<lparr>Method = ''GET'', ReqURL = ''http://x'', ReqHeader = [], ReqBody = None\<rparr>]\<rparr>) \<and>
   (\<exists>w'. Request_legacy (example_env (\<lambda>k. Inr (response 201 ''201 Created''))) ''http://x'' ''POST'' []
       (Some [1, 2]) initial_world =
     Some ((\<lparr>Body = Some [], Status = \<lparr>Text = ''201 Created'', Code = 201\<rparr>, Headers = Some []\<rparr>,
            None), w') \<and> length (sent w') = 1 \<and> sleeps w' = [])"
  using success_returns_at_once [of "example_env (\<lambda>k. Inr (response 204 ''204 No Content''))" "''GET''"
      "''http://x''" initial_world "response 204 ''204 No Content''" "[]" None]
    success_returns_at_once [of "example_env (\<lambda>k. Inr (response 201 ''201 Created''))" "''POST''"
      "''http://x''" initial_world "response 201 ''201 Created''" "[]" "Some [1, 2]"]
  by (simp add: example_env_def initial_world_def response_def spec_statusOK_def)

text \<open>
  The legacy variant does not return on a 204: it sends the request a second time and
  returns what the second response (here a 200) gives.
\<close>

theorem legacy_204_is_sent_again:
  "Request_legacy
     (example_env (\<lambda>k. if k = 0 then Inr (response 204 ''204 No Content'') else Inr (response 200 ''200 OK'')))
     ''http://x'' ''GET'' [] None initial_world =
   Some ((\<lparr>Body = Some [], Status = \<lparr>Text = ''200 OK'', Code = 200\<rparr>, Headers = Some []\<rparr>, None),
         initial_world\<lparr>sent :=
           [\<lparr>Method = ''GET'', ReqURL = ''http://x'',
             ReqHeader = [(''User-Agent'', ''Golang_italia_backend_bot/0.0.1_local'')], ReqBody = None\<rparr>,
            \<lparr>Method = ''GET'', ReqURL = ''http://x'',
             ReqHeader = [(''User-Agent'', ''Golang_italia_backend_bot/0.0.1_local'')], ReqBody = None\<rparr>]\<rparr>)"
  by (simp add: run_simps)


section \<open>Status code and error of a result\<close>

lemma reported_error: "reported e url l w' (error_response err url)"
  by (simp add: reported_def error_response_def)

lemma reported_invalid: "reported e url l w' (invalid_status_response url None)"
  by (simp add: reported_def invalid_status_response_def)

lemma reported_response:
  "transport e (length (sent w)) = Inr resp \<Longrightarrow> sent w' = sent w @ [rq] \<Longrightarrow>
   l \<le> length (sent w) \<Longrightarrow> StatusCode resp \<noteq> - 1 \<Longrightarrow>
   snd x = None \<and> Code (Status (fst x)) = StatusCode resp \<Longrightarrow> reported e url l w' x"
  by (auto simp add: reported_def)

lemma attempt_reported:
  assumes a: "attempt e url verb headers body n w = (Inl x, w')"
    and ok: "\<forall>resp. snd (statusOK e resp) = None \<and> Code (Status (fst (statusOK e resp))) = StatusCode resp"
    and nf: "\<forall>resp. snd (statusNotFound e resp) = None \<and> Code (Status (fst (statusNotFound e resp))) = 404"
    and l: "l \<le> length (sent w)"
  shows "reported e url l w' x"
proof (cases "newRequestErr e verb url")
  case (Some err)
  with a show ?thesis by (auto simp add: attempt_newRequest_fails reported_error)
next
  case None
  from attempt_world [OF None a] have s: "sent w' = sent w @
      [\<lparr>Method = verb, ReqURL = url, ReqHeader = headers, ReqBody = body\<rparr>]" by simp
  show ?thesis
  proof (cases "transport e (length (sent w))")
    case (Inl err)
    with a None show ?thesis by (auto simp add: attempt_send_fails reported_error)
  next
    case (Inr resp)
    let ?w1 = "w\<lparr>sent := sent w @ [set_headers headers \<lparr>Method = verb, ReqURL = url, ReqHeader = [], ReqBody = body\<rparr>]\<rparr>"
    obtain r2 w2 where c2: "classify (StatusCode resp = 429) (statusTooManyRequests e) resp n ?w1 = (r2, w2)"
      by (cases "classify (StatusCode resp = 429) (statusTooManyRequests e) resp n ?w1")
    obtain r3 w3 where c3: "classify (StatusCode resp = 403) (statusForbidden e) resp (fst r2) w2 = (r3, w3)"
      by (cases "classify (StatusCode resp = 403) (statusForbidden e) resp (fst r2) w2")
    from a None Inr c2 c3
    have "(\<exists>err. x = error_response err url) \<or>
          (x = statusOK e resp \<and> 200 \<le> StatusCode resp) \<or>
          (x = statusNotFound e resp \<and> StatusCode resp = 404)"
      by (cases r2; cases r3)
        (auto simp add: attempt_def http_NewRequest_def client_Do_def split: if_splits option.splits)
    then show ?thesis
    proof (elim disjE exE conjE)
      fix err
      assume "x = error_response err url"
      then show ?thesis by (simp add: reported_error)
    next
      assume "x = statusOK e resp" "200 \<le> StatusCode resp"
      with ok show ?thesis by (intro reported_response [OF Inr s l]) simp_all
    next
      assume "x = statusNotFound e resp" "StatusCode resp = 404"
      with nf show ?thesis by (intro reported_response [OF Inr s l]) simp_all
    qed
  qed
qed

lemma attempt_legacy_reported:
  assumes a: "attempt_legacy e url verb headers body n w = (Inl x, w')"
    and ok: "\<forall>resp. snd (statusOK e resp) = None \<and> Code (Status (fst (statusOK e resp))) = StatusCode resp"
    and nf: "\<forall>resp. snd (statusNotFound e resp) = None \<and> Code (Status (fst (statusNotFound e resp))) = 404"
    and l: "l \<le> length (sent w)"
  shows "reported e url l w' x"
proof (cases "newRequestErr e verb url")
  case (Some err)
  with a show ?thesis by (auto simp add: attempt_legacy_newRequest_fails reported_error)
next
  case None
  from attempt_legacy_world [OF None a] have s: "sent w' = sent w @
      [\<lparr>Method = verb, ReqURL = url,
        ReqHeader = headers @ [(''User-Agent'', userAgent @ ''/'' @ legacy_version headers w)],
        ReqBody = body\<rparr>]" by simp
  let ?w0 = "if map_index headers ''version'' \<noteq> [] then w\<lparr>version := map_index headers ''version''\<rparr> else w"
  let ?req = "Header_Add (set_headers headers \<lparr>Method = verb, ReqURL = url, ReqHeader = [], ReqBody = body\<rparr>)
        ''User-Agent'' (userAgent @ ''/'' @ version ?w0)"
  let ?w1 = "?w0\<lparr>sent := sent ?w0 @ [?req]\<rparr>"
  have do: "client_Do e ?req ?w0 = (transport e (length (sent w)), ?w1)"
    by (simp add: client_Do_def)
  show ?thesis
  proof (cases "transport e (length (sent w))")
    case (Inl err)
    with a None do have "x = error_response err url"
      by (simp add: attempt_legacy_def http_NewRequest_def Let_def)
    then show ?thesis by (simp add: reported_error)
  next
    case (Inr resp)
    obtain r2 w2 where c2: "classify (StatusCode resp = 429) (statusTooManyRequests e) resp n ?w1 = (r2, w2)"
      by (cases "classify (StatusCode resp = 429) (statusTooManyRequests e) resp n ?w1")
    obtain r3 w3 where c3: "classify (StatusCode resp = 403) (statusForbidden e) resp (fst r2) w2 = (r3, w3)"
      by (cases "classify (StatusCode resp = 403) (statusForbidden e) resp (fst r2) w2")
    from a None Inr c2 c3 do
    have "(\<exists>err. x = error_response err url) \<or>
          (x = statusOK e resp \<and> 200 \<le> StatusCode resp) \<or>
          (x = statusNotFound e resp \<and> StatusCode resp = 404)"
      by (cases r2; cases r3)
        (auto simp add: attempt_legacy_def http_NewRequest_def Let_def split: if_splits option.splits)
    then show ?thesis
    proof (elim disjE exE conjE)
      fix err
      assume "x = error_response err url"
      then show ?thesis by (simp add: reported_error)
    next
      assume "x = statusOK e resp" "200 \<le> StatusCode resp"
      with ok show ?thesis by (intro reported_response [OF Inr s l]) simp_all
    next
      assume "x = statusNotFound e resp" "StatusCode resp = 404"
      with nf show ?thesis by (intro reported_response [OF Inr s l]) simp_all
    qed
  qed
qed

lemma attempt_continues_sent:
  assumes "attempt e url verb headers body n w = (Inr n', w1)"
  shows "length (sent w) \<le> length (sent w1)"
proof (cases "newRequestErr e verb url")
  case (Some err)
  with assms show ?thesis by (simp add: attempt_newRequest_fails)
next
  case None
  from attempt_world [OF None assms] show ?thesis by simp
qed

lemma attempt_legacy_continues_sent:
  assumes "attempt_legacy e url verb headers body n w = (Inr n', w1)"
  shows "length (sent w) \<le> length (sent w1)"
proof (cases "newRequestErr e verb url")
  case (Some err)
  with assms show ?thesis by (simp add: attempt_legacy_newRequest_fails)
next
  case None
  from attempt_legacy_world [OF None assms] show ?thesis by simp
qed

lemma Request_loop_reported:
  assumes "Request_loop e url verb headers body n w = Some y"
    and "\<forall>resp. snd (statusOK e resp) = None \<and> Code (Status (fst (statusOK e resp))) = StatusCode resp"
    and "\<forall>resp. snd (statusNotFound e resp) = None \<and> Code (Status (fst (statusNotFound e resp))) = 404"
    and "l \<le> length (sent w)"
  shows "reported e url l (snd y) (fst y)"
  using assms
proof (induction e url verb headers body n w y rule: Request_loop.raw_induct [rotated 1, consumes 1])
  case (1 loop e url verb headers body n w y)
  show ?case
  proof (cases "n < 8")
    case False
    with "1.hyps" show ?thesis by (auto simp: reported_invalid)
  next
    case True
    obtain x w1 where a: "attempt e url verb headers body n w = (x, w1)"
      by (cases "attempt e url verb headers body n w")
    show ?thesis
    proof (cases x)
      case (Inl r)
      with "1.hyps" True a have "y = (r, w1)" by simp
      with attempt_reported [OF a [unfolded Inl] "1.prems"] show ?thesis by simp
    next
      case (Inr n')
      with "1.hyps" True a have run: "loop e url verb headers body n' w1 = Some y" by simp
      from attempt_continues_sent [OF a [unfolded Inr]] "1.prems"(3)
      have "l \<le> length (sent w1)" by simp
      from "1.IH" [OF run "1.prems"(1,2) this] show ?thesis .
    qed
  qed
qed

lemma Request_loop_legacy_reported:
  assumes "Request_loop_legacy e url verb headers body n w = Some y"
    and "\<forall>resp. snd (statusOK e resp) = None \<and> Code (Status (fst (statusOK e resp))) = StatusCode resp"
    and "\<forall>resp. snd (statusNotFound e resp) = None \<and> Code (Status (fst (statusNotFound e resp))) = 404"
    and "l \<le> length (sent w)"
  shows "reported e url l (snd y) (fst y)"
  using assms
proof (induction e url verb headers body n w y rule: Request_loop_legacy.raw_induct [rotated 1, consumes 1])
  case (1 loop e url verb headers body n w y)
  show ?case
  proof (cases "n < 8")
    case False
    with "1.hyps" show ?thesis by (auto simp: reported_invalid)
  next
    case True
    obtain x w1 where a: "attempt_legacy e url verb headers body n w = (x, w1)"
      by (cases "attempt_legacy e url verb headers body n w")
    show ?thesis
    proof (cases x)
      case (Inl r)
      with "1.hyps" True a have "y = (r, w1)" by simp
      with attempt_legacy_reported [OF a [unfolded Inl] "1.prems"] show ?thesis by simp
    next
      case (Inr n')
      with "1.hyps" True a have run: "loop e url verb headers body n' w1 = Some y" by simp
      from attempt_legacy_continues_sent [OF a [unfolded Inr]] "1.prems"(3)
      have "l \<le> length (sent w1)" by simp
      from "1.IH" [OF run "1.prems"(1,2) this] show ?thesis .
    qed
  qed
qed

text \<open>
  C2. For every pair that either variant returns, when \<open>statusOK\<close> and \<open>statusNotFound\<close>
  return a nil error and the status code of the response (404 for the latter): a non-nil
  error comes with status code -1; a status code other than -1 comes with a nil error,
  the call has sent at least one request, and the code is the status code of the
  response that the transport gave to the last request the call sent; and status code
  -1 with a nil error is the result after the loop.
\<close>

theorem error_implies_minus_one:
  "Request e url verb headers body w = Some ((r, err), w') \<or>
   Request_legacy e url verb headers body w = Some ((r, err), w') \<Longrightarrow>
   (\<forall>resp. snd (statusOK e resp) = None \<and>
      Code (Status (fst (statusOK e resp))) = StatusCode resp) \<Longrightarrow>
   (\<forall>resp. snd (statusNotFound e resp) = None \<and>
      Code (Status (fst (statusNotFound e resp))) = 404) \<Longrightarrow>
   (err \<noteq> None \<longrightarrow> Code (Status r) = - 1) \<and>
   (Code (Status r) \<noteq> - 1 \<longrightarrow>
      err = None \<and> length (sent w) < length (sent w') \<and>
      (\<exists>resp. transport e (length (sent w') - 1) = Inr resp \<and>
         StatusCode resp = Code (Status r))) \<and>
   (Code (Status r) = - 1 \<and> err = None \<longrightarrow>
      r = \<lparr>Body = None, Status = \<lparr>Text = ''Invalid Status Code: '' @ url, Code = - 1\<rparr>, Headers = None\<rparr>)"
  using Request_loop_reported [of e url verb headers body 0 w "((r, err), w')" "length (sent w)"]
    Request_loop_legacy_reported [of e url verb headers body 0 w "((r, err), w')" "length (sent w)"]
  unfolding Request_def Request_legacy_def reported_def invalid_status_response_def
  by auto

lemma run_legacy_timeout:
  "Request_legacy (example_env (\<lambda>k. Inl ''timeout '')) ''http://x'' ''GET'' [] None initial_world =
     Some ((\<lparr>Body = None, Status = \<lparr>Text = ''timeout http://x'', Code = - 1\<rparr>, Headers = None\<rparr>,
            Some ''timeout ''),
           initial_world\<lparr>sent :=
             [\<lparr>Method = ''GET'', ReqURL = ''http://x'',
               ReqHeader = [(''User-Agent'', ''Golang_italia_backend_bot/0.0.1_local'')],
               ReqBody = None\<rparr>]\<rparr>)"
  by (simp add: run_simps)

theorem error_implies_minus_one_witness:
  "Request (example_env (\<lambda>k. Inr (response 200 ''200 OK''))) ''http://x'' ''GET'' [] None initial_world =
     Some ((\<lparr>Body = Some [], Status = \<lparr>Text = ''200 OK'', Code = 200\<rparr>, Headers = Some []\<rparr>, None),
           initial_world\<lparr>sent :=
             [\<lparr>Method = ''GET'', ReqURL = ''http://x'', ReqHeader = [], ReqBody = None\<rparr>]\<rparr>) \<and>
   (\<exists>resp. transport (example_env (\<lambda>k. Inr (response 200 ''200 OK''))) 0 = Inr resp \<and>
      StatusCode resp = 200) \<and>
   Request_legacy (example_env (\<lambda>k. Inl ''timeout '')) ''http://x'' ''GET'' [] None initial_world =
     Some ((\<lparr>Body = None, Status = \<lparr>Text = ''timeout http://x'', Code = - 1\<rparr>, Headers = None\<rparr>,
            Some ''timeout ''),
           initial_world\<lparr>sent :=
             [\<lparr>Method = ''GET'', ReqURL = ''http://x'',
               ReqHeader = [(''User-Agent'', ''Golang_italia_backend_bot/0.0.1_local'')],
               ReqBody = None\<rparr>]\<rparr>)"
  using error_implies_minus_one [OF disjI1 [OF run_200]]
    error_implies_minus_one [OF disjI2 [OF run_legacy_timeout]] run_200 run_legacy_timeout
  by (simp add: example_env_def spec_statusOK_def spec_statusNotFound_def)

text \<open>
  Status code -1 with a nil error: the current variant against a server that answers
  500 to every request.
\<close>

theorem exhausted_has_nil_error:
  "Request (example_env (\<lambda>k. Inr (response 500 ''500 Internal Server Error''))) ''http://x'' ''GET'' []
      None initial_world =
     Some ((\<lparr>Body = None, Status = \<lparr>Text = ''Invalid Status Code: http://x'', Code = - 1\<rparr>,
             Headers = None\<rparr>, None),
           initial_world\<lparr>sent :=
             replicate 8 \<lparr>Method = ''GET'', ReqURL = ''http://x'', ReqHeader = [], ReqBody = None\<rparr>\<rparr>)"
  using Request_unclassified_exhausts [of "example_env (\<lambda>k. Inr (response 500 ''500 Internal Server Error''))"
      "''GET''" "''http://x''" "[]" None initial_world]
  by (simp add: example_env_def response_def unclassified_def invalid_status_response_def
      initial_world_def)

section \<open>Responses that are retried\<close>

lemma attempt_retry:
  assumes nr: "newRequestErr e verb url = None"
    and tr: "transport e (length (sent w)) = Inr resp"
    and st: "StatusCode resp = 429 \<and> (\<forall>n. fst (statusTooManyRequests e resp n) = (n + 1, None)) \<or>
             StatusCode resp = 403 \<and> (\<forall>n. fst (statusForbidden e resp n) = (n + 1, None))"
  shows "\<exists>n' w'. attempt e url verb headers body n w = (Inr n', w') \<and> n < n' \<and>
              length (sent w') = Suc (length (sent w))"
proof -
  from st show ?thesis
  proof
    assume h: "StatusCode resp = 429 \<and> (\<forall>n. fst (statusTooManyRequests e resp n) = (n + 1, None))"
    then have "fst (statusTooManyRequests e resp n) = (n + 1, None)" by simp
    then obtain z where "statusTooManyRequests e resp n = ((n + 1, None), z)"
      by (cases "statusTooManyRequests e resp n") auto
    with nr tr h show ?thesis
      by (simp add: attempt_def http_NewRequest_def client_Do_def classify_def)
  next
    assume h: "StatusCode resp = 403 \<and> (\<forall>n. fst (statusForbidden e resp n) = (n + 1, None))"
    then have "fst (statusForbidden e resp n) = (n + 1, None)" by simp
    then obtain z where "statusForbidden e resp n = ((n + 1, None), z)"
      by (cases "statusForbidden e resp n") auto
    with nr tr h show ?thesis
      by (simp add: attempt_def http_NewRequest_def client_Do_def classify_def)
  qed
qed

lemma Request_loop_retry:
  assumes nr: "newRequestErr e verb url = None"
    and tr: "\<And>k. l \<le> k \<Longrightarrow> k < l + 8 \<Longrightarrow>
        \<exists>resp. transport e k = Inr resp \<and>
          (StatusCode resp = 429 \<and> (\<forall>n. fst (statusTooManyRequests e resp n) = (n + 1, None)) \<or>
           StatusCode resp = 403 \<and> (\<forall>n. fst (statusForbidden e resp n) = (n + 1, None)))"
  shows "length (sent w) = l + m \<Longrightarrow> int m \<le> n \<Longrightarrow>
     \<exists>w'. Request_loop e url verb headers body n w = Some (invalid_status_response url None, w')"
proof (induction "nat (8 - n)" arbitrary: n m w rule: less_induct)
  case less
  show ?case
  proof (cases "n < 8")
    case False
    then show ?thesis by (simp add: Request_loop_exit)
  next
    case lt: True
    with less.prems have "l \<le> length (sent w)" "length (sent w) < l + 8" by simp_all
    from tr [OF this] obtain resp where r: "transport e (length (sent w)) = Inr resp"
      "StatusCode resp = 429 \<and> (\<forall>n. fst (statusTooManyRequests e resp n) = (n + 1, None)) \<or>
       StatusCode resp = 403 \<and> (\<forall>n. fst (statusForbidden e resp n) = (n + 1, None))"
      by blast
    from attempt_retry [OF nr r, where headers = headers and body = body and n = n]
    obtain n' w1 where
      a: "attempt e url verb headers body n w = (Inr n', w1)"
      and up: "n < n'"
      and s: "length (sent w1) = Suc (length (sent w))"
      by blast
    have "Request_loop e url verb headers body n w = Request_loop e url verb headers body n' w1"
      using a by (simp add: Request_loop_step [OF lt])
    moreover have "\<exists>w'. Request_loop e url verb headers body n' w1 =
               Some (invalid_status_response url None, w')"
    proof (rule less.hyps [where m = "Suc m"])
      show "nat (8 - n') < nat (8 - n)" using up lt by simp
      show "length (sent w1) = l + Suc m" using s less.prems(1) by simp
      show "int (Suc m) \<le> n'" using up less.prems(2) by simp
    qed
    ultimately show ?thesis by simp
  qed
qed

lemma attempt_legacy_retry:
  assumes nr: "newRequestErr e verb url = None"
    and tr: "transport e (length (sent w)) = Inr resp"
    and st: "StatusCode resp = 429 \<and> (\<forall>n. fst (statusTooManyRequests e resp n) = (n + 1, None)) \<or>
             StatusCode resp = 403 \<and> (\<forall>n. fst (statusForbidden e resp n) = (n + 1, None))"
  shows "\<exists>w'. attempt_legacy e url verb headers body n w = (Inr (n + 1), w') \<and>
              length (sent w') = Suc (length (sent w))"
proof -
  from st show ?thesis
  proof
    assume h: "StatusCode resp = 429 \<and> (\<forall>n. fst (statusTooManyRequests e resp n) = (n + 1, None))"
    then have "fst (statusTooManyRequests e resp n) = (n + 1, None)" by simp
    then obtain z where "statusTooManyRequests e resp n = ((n + 1, None), z)"
      by (cases "statusTooManyRequests e resp n") auto
    with nr tr h show ?thesis
      by (simp add: attempt_legacy_def http_NewRequest_def client_Do_def classify_def Let_def)
  next
    assume h: "StatusCode resp = 403 \<and> (\<forall>n. fst (statusForbidden e resp n) = (n + 1, None))"
    then have "fst (statusForbidden e resp n) = (n + 1, None)" by simp
    then obtain z where "statusForbidden e resp n = ((n + 1, None), z)"
      by (cases "statusForbidden e resp n") auto
    with nr tr h show ?thesis
      by (simp add: attempt_legacy_def http_NewRequest_def client_Do_def classify_def Let_def)
  qed
qed

lemma Request_loop_legacy_retry:
  assumes nr: "newRequestErr e verb url = None"
    and tr: "\<And>k. l \<le> k \<Longrightarrow> k < l + 8 \<Longrightarrow>
        \<exists>resp. transport e k = Inr resp \<and>
          (StatusCode resp = 429 \<and> (\<forall>n. fst (statusTooManyRequests e resp n) = (n + 1, None)) \<or>
           StatusCode resp = 403 \<and> (\<forall>n. fst (statusForbidden e resp n) = (n + 1, None)))"
  shows "m \<le> 8 \<Longrightarrow> length (sent w) = l + m \<Longrightarrow>
     \<exists>w'. Request_loop_legacy e url verb headers body (int m) w =
             Some (invalid_status_response url None, w') \<and> length (sent w') = l + 8"
proof (induction "8 - m" arbitrary: m w)
  case 0
  then have "m = 8" by simp
  with 0 show ?case by (simp add: Request_loop_legacy_exit)
next
  case (Suc d)
  then have lt: "int m < 8" by simp
  from Suc have "l \<le> length (sent w)" "length (sent w) < l + 8" by simp_all
  from tr [OF this] obtain resp where r: "transport e (length (sent w)) = Inr resp"
    "StatusCode resp = 429 \<and> (\<forall>n. fst (statusTooManyRequests e resp n) = (n + 1, None)) \<or>
     StatusCode resp = 403 \<and> (\<forall>n. fst (statusForbidden e resp n) = (n + 1, None))"
    by blast
  from attempt_legacy_retry [OF nr r, where headers = headers and body = body and n = "int m"]
  obtain w1 where
    a: "attempt_legacy e url verb headers body (int m) w = (Inr (int m + 1), w1)"
    and s: "length (sent w1) = Suc (length (sent w))"
    by blast
  have "Request_loop_legacy e url verb headers body (int m) w =
        Request_loop_legacy e url verb headers body (int (Suc m)) w1"
    using a by (simp add: Request_loop_legacy_step [OF lt] add.commute)
  moreover have "\<exists>w'. Request_loop_legacy e url verb headers body (int (Suc m)) w1 =
             Some (invalid_status_response url None, w') \<and> length (sent w') = l + 8"
    using Suc s by (intro Suc.hyps) simp_all
  ultimately show ?case by simp
qed

text \<open>
  C1. When the request can be constructed, the next eight answers of the transport are
  responses with status 429 or 403, and the helper called for each returns the counter
  plus one and a nil error, Request returns, in either variant, status code -1 with the
  text "Invalid Status Code: " followed by the URL, and a nil error. The legacy variant
  has then sent exactly these eight requests.
\<close>

theorem retry_eligible_exhausts:
  "newRequestErr e verb url = None \<Longrightarrow>
   (\<forall>k. length (sent w) \<le> k \<and> k < length (sent w) + 8 \<longrightarrow>
      (\<exists>resp. transport e k = Inr resp \<and>
         (StatusCode resp = 429 \<and> (\<forall>n. fst (statusTooManyRequests e resp n) = (n + 1, None)) \<or>
          StatusCode resp = 403 \<and> (\<forall>n. fst (statusForbidden e resp n) = (n + 1, None))))) \<Longrightarrow>
   (\<exists>w'. Request e url verb headers body w =
          Some ((\<lparr>Body = None, Status = \<lparr>Text = ''Invalid Status Code: '' @ url, Code = - 1\<rparr>,
                  Headers = None\<rparr>, None), w')) \<and>
   (\<exists>w'. Request_legacy e url verb headers body w =
          Some ((\<lparr>Body = None, Status = \<lparr>Text = ''Invalid Status Code: '' @ url, Code = - 1\<rparr>,
                  Headers = None\<rparr>, None), w') \<and>
        length (sent w') = length (sent w) + 8)"
  using Request_loop_retry [of e verb url "length (sent w)" w 0 0 headers body]
    Request_loop_legacy_retry [of e verb url "length (sent w)" 0 w headers body]
  by (simp add: Request_def Request_legacy_def invalid_status_response_def)

theorem retry_eligible_exhausts_witness:
  "(\<exists>w'. Request (example_env (\<lambda>k. if even k then Inr (response 429 ''429 Too Many Requests'')
                                   else Inr (response 403 ''403 Forbidden'')))
          ''http://x'' ''GET'' [] None initial_world =
          Some ((\<lparr>Body = None, Status = \<lparr>Text = ''Invalid Status Code: http://x'', Code = - 1\<rparr>,
                  Headers = None\<rparr>, None), w')) \<and>
   (\<exists>w'. Request_legacy (example_env (\<lambda>k. if even k then Inr (response 429 ''429 Too Many Requests'')
                                   else Inr (response 403 ''403 Forbidden'')))
          ''http://x'' ''GET'' [] None initial_world =
          Some ((\<lparr>Body = None, Status = \<lparr>Text = ''Invalid Status Code: http://x'', Code = - 1\<rparr>,
                  Headers = None\<rparr>, None), w') \<and>
        length (sent w') = 8)"
  using retry_eligible_exhausts [of "example_env (\<lambda>k. if even k then Inr (response 429 ''429 Too Many Requests'')
                                   else Inr (response 403 ''403 Forbidden''))"
      "''GET''" "''http://x''" initial_world "[]" None]
  by (simp add: example_env_def initial_world_def response_def spec_classifier_def)

text \<open>
  The error is nil, not an error that mentions the URL: the legacy variant against a
  server that answers 429 to every request, helpers as the spec describes them. Eight
  requests were sent and eight responses received.
\<close>

theorem Request_429_error_is_nil:
  "Request_legacy (example_env (\<lambda>k. Inr (response 429 ''429 Too Many Requests''))) ''http://x'' ''GET'' []
      None initial_world =
   Some ((\<lparr>Body = None, Status = \<lparr>Text = ''Invalid Status Code: http://x'', Code = - 1\<rparr>,
           Headers = None\<rparr>, None),
         \<lparr>sent = replicate 8
                  \<lparr>Method = ''GET'', ReqURL = ''http://x'',
                   ReqHeader = [(''User-Agent'', ''Golang_italia_backend_bot/0.0.1_local'')],
                   ReqBody = None\<rparr>,
          sleeps = [expBackoffCalc 0, expBackoffCalc 1, expBackoffCalc 2, expBackoffCalc 3,
                    expBackoffCalc 4, expBackoffCalc 5, expBackoffCalc 6, expBackoffCalc 7],
          version = ''0.0.1_local''\<rparr>)"
  by (simp add: run_simps eval_nat_numeral)

section \<open>The backoff calculator in float64\<close>

text \<open>Rounding leaves a number of at most 53 significant bits as it is.\<close>

lemma bitlen_powi_bounds:
  assumes "0 < p"
  shows "2 powi (bitlen p - 1) \<le> (of_int p :: rat)" and "(of_int p :: rat) < 2 powi bitlen p"
proof -
  from assms have b1: "1 \<le> bitlen p" by (auto simp: bitlen_alt_def)
  from bitlen_bounds [OF assms] have lo: "2 ^ nat (bitlen p - 1) \<le> p" and hi: "p < 2 ^ nat (bitlen p)"
    by simp_all
  have "(2::rat) powi (bitlen p - 1) = of_int (2 ^ nat (bitlen p - 1))"
    using b1 by (simp add: power_int_nonneg_exp)
  also have "\<dots> \<le> of_int p" using lo by (simp only: of_int_le_iff)
  finally show "2 powi (bitlen p - 1) \<le> (of_int p :: rat)" .
  have "(of_int p :: rat) < of_int (2 ^ nat (bitlen p))" using hi by (simp only: of_int_less_iff)
  also have "\<dots> = 2 powi bitlen p" using b1 by (simp add: power_int_nonneg_exp)
  finally show "(of_int p :: rat) < 2 powi bitlen p" .
qed

lemma ilog2_bounds:
  assumes "0 < x"
  shows "2 powi ilog2 x \<le> x \<and> x < 2 powi (ilog2 x + 1)"
proof -
  obtain p d where q: "quotient_of x = (p, d)" by (cases "quotient_of x")
  then have d: "0 < d" by (rule quotient_of_denom_pos)
  from q have x: "x = of_int p / of_int d" by (rule quotient_of_div)
  with assms d have p: "0 < p" by (simp add: zero_less_divide_iff)
  let ?a = "bitlen p" and ?b = "bitlen d"
  note P = bitlen_powi_bounds [OF p] and D = bitlen_powi_bounds [OF d]
  have dpos: "(0::rat) < of_int d" using d by simp
  have up: "x < 2 powi (?a - ?b + 1)"
  proof -
    have "x < 2 powi ?a / of_int d" unfolding x using P(2) dpos by (simp add: divide_strict_right_mono)
    also have "\<dots> \<le> 2 powi ?a / 2 powi (?b - 1)"
      using D(1) dpos by (intro divide_left_mono mult_pos_pos) simp_all
    also have "\<dots> = 2 powi (?a - (?b - 1))" by (simp add: power_int_diff)
    finally show ?thesis by (simp add: algebra_simps)
  qed
  have lo: "2 powi (?a - ?b - 1) < x"
  proof -
    have "2 powi (?a - ?b - 1) = (2::rat) powi (?a - 1) / 2 powi ?b"
      by (simp add: power_int_diff [symmetric] algebra_simps)
    also have "\<dots> < 2 powi (?a - 1) / of_int d"
      using D(2) dpos by (intro divide_strict_left_mono) simp_all
    also have "\<dots> \<le> x" unfolding x using P(1) dpos by (simp add: divide_right_mono)
    finally show ?thesis .
  qed
  show ?thesis
  proof (cases "2 powi (?a - ?b) \<le> x")
    case True
    then have "ilog2 x = ?a - ?b" by (simp add: ilog2_def q Let_def)
    with True up show ?thesis by simp
  next
    case False
    then have "ilog2 x = ?a - ?b - 1" by (simp add: ilog2_def q Let_def)
    with False lo show ?thesis by simp
  qed
qed

lemma powi2_less_imp_less:
  assumes "(2::rat) powi a < 2 powi b"
  shows "a < b"
proof (rule ccontr)
  assume "\<not> a < b"
  then have "b \<le> a" by simp
  then have "(2::rat) powi b \<le> 2 powi a" by (rule power_int_increasing) simp
  with assms show False by simp
qed

lemma ilog2_eqI:
  assumes "2 powi e \<le> x" and "x < 2 powi (e + 1)"
  shows "ilog2 x = e"
proof -
  have "0 < (2::rat) powi e" by simp
  from this assms(1) have pos: "0 < x" by (rule less_le_trans)
  from ilog2_bounds [OF pos] have b: "2 powi ilog2 x \<le> x" "x < 2 powi (ilog2 x + 1)" by simp_all
  have "(2::rat) powi e < 2 powi (ilog2 x + 1)" using assms(1) b(2) by simp
  then have 1: "e < ilog2 x + 1" by (rule powi2_less_imp_less)
  have "(2::rat) powi ilog2 x < 2 powi (e + 1)" using assms(2) b(1) by simp
  then have 2: "ilog2 x < e + 1" by (rule powi2_less_imp_less)
  from 1 2 show ?thesis by simp
qed

lemma rne_of_int [simp]: "rne (of_int m) = m"
  by (simp add: rne_def)


lemma round64_zero [simp]: "round64 0 = Finite 0"
  by (simp add: round64_def)

lemma round64_exact:
  assumes m: "0 < m" "m < 2 ^ 53" and q': "- 1074 \<le> q'"
    and x: "x = of_int m * 2 powi q'" and lt: "x < 2 powi 1024"
  shows "round64 x = Finite x"
proof -
  have pos: "0 < x" unfolding x using m(1) by simp
  let ?e = "ilog2 x"
  let ?q = "max (?e - 52) (- 1074)"
  from ilog2_bounds [OF pos] have lo: "2 powi ?e \<le> x" by simp
  have "(of_int m :: rat) < of_int (2 ^ 53)" using m(2) by (simp only: of_int_less_iff)
  then have "x < 2 ^ 53 * 2 powi q'" unfolding x by simp
  also have "\<dots> = 2 powi (53 + q')" by (simp add: power_int_add)
  finally have "(2::rat) powi ?e < 2 powi (53 + q')" using lo by simp
  then have "?e < 53 + q'" by (rule powi2_less_imp_less)
  with q' have le: "?q \<le> q'" by simp
  have "x / 2 powi ?q = of_int m * 2 powi (q' - ?q)"
    unfolding x by (simp add: power_int_diff)
  also have "\<dots> = of_int (m * 2 ^ nat (q' - ?q))"
    using le by (simp add: power_int_nonneg_exp)
  finally have sc: "x / 2 powi ?q = of_int (m * 2 ^ nat (q' - ?q))" .
  have "of_int (rne (x / 2 powi ?q)) * 2 powi ?q = x / 2 powi ?q * 2 powi ?q"
    by (simp only: sc rne_of_int)
  also have "\<dots> = x" by simp
  finally have y: "of_int (rne (x / 2 powi ?q)) * 2 powi ?q = x" .
  from pos have nz: "x \<noteq> 0" and sg: "sgn x = 1" by simp_all
  from lt have nov: "\<not> 2 powi 1024 \<le> x" by (simp only: not_le)
  show ?thesis by (simp only: round64_def Let_def abs_of_pos [OF pos] y nz nov sg if_False mult_1)
qed

text \<open>
  Up to 53 every step of the calculator is exact. From 54 on \<open>2^n - 1\<close> has more than 53
  bits and the subtraction rounds up to \<open>2^n\<close>; from 1024 on the power is \<open>+Inf\<close>.
\<close>

lemma float64_of_int_exact:
  assumes "0 \<le> n" "n < 2 ^ 53"
  shows "float64_of_int n = Finite (of_int n)"
proof (cases "n = 0")
  case True
  then show ?thesis by (simp add: float64_of_int_def)
next
  case False
  with assms have "0 < n" by simp
  moreover have "(of_int n :: rat) < 2 powi 1024"
  proof -
    have "(of_int n :: rat) < of_int (2 ^ 53)" using assms(2) by (simp only: of_int_less_iff)
    also have "\<dots> = 2 powi 53" by simp
    also have "\<dots> \<le> 2 powi 1024" by (rule power_int_increasing) simp_all
    finally show ?thesis .
  qed
  ultimately show ?thesis
    unfolding float64_of_int_def
    using assms(2) by (intro round64_exact [where m = n and q' = 0]) simp_all
qed

lemma math_Pow2_exact:
  assumes "0 \<le> n" "n < 1024"
  shows "math_Pow2 (Finite (of_int n)) = Finite (2 powi n)"
proof -
  have "(2::rat) powi n < 2 powi 1024" using assms(2) by (intro power_int_strict_increasing) simp_all
  then have "round64 (2 powi n) = Finite (2 powi n)"
    using assms(1) by (intro round64_exact [where m = 1 and q' = n]) simp_all
  with assms show ?thesis by simp
qed

lemma expBackoffCalc_small:
  assumes "0 \<le> n" "n \<le> 53"
  shows "expBackoffCalc n = Finite ((2 ^ nat n - 1) / 2)"
proof -
  have n53: "n < 2 ^ 53" using assms(2) by simp
  have c: "float64_of_int n = Finite (of_int n)"
    using assms(1) n53 by (rule float64_of_int_exact)
  have p: "math_Pow2 (Finite (of_int n)) = Finite (2 ^ nat n)"
    using math_Pow2_exact [of n] assms by (simp add: power_int_nonneg_exp)
  show ?thesis
  proof (cases "n = 0")
    case True
    with c p show ?thesis unfolding expBackoffCalc_def by simp
  next
    case False
    with assms have n1: "1 \<le> nat n" "nat n \<le> 53" by simp_all
    let ?m = "2 ^ nat n - 1 :: int"
    have "(2::int) ^ 1 \<le> 2 ^ nat n" using n1(1) by (intro power_increasing) simp_all
    then have m0: "0 < ?m" by simp
    have "(2::int) ^ nat n \<le> 2 ^ 53" using n1(2) by (intro power_increasing) simp_all
    then have m53: "?m < 2 ^ 53" by simp
    have ofm: "(of_int ?m :: rat) = 2 ^ nat n - 1" by simp
    have big: "(2 ^ nat n - 1 :: rat) < 2 powi 1024"
    proof -
      have "(2 ^ nat n - 1 :: rat) < 2 ^ nat n" by simp
      also have "\<dots> = 2 powi n" using assms(1) by (simp add: power_int_nonneg_exp)
      also have "\<dots> \<le> 2 powi 1024" using assms(2) by (intro power_int_increasing) simp_all
      finally show ?thesis .
    qed
    have s: "round64 (2 ^ nat n - 1) = Finite (2 ^ nat n - 1)"
      using m0 m53 big by (intro round64_exact [where m = ?m and q' = 0]) (simp_all add: ofm)
    have big2: "((2 ^ nat n - 1) / 2 :: rat) < 2 powi 1024"
    proof -
      have "((2 ^ nat n - 1) / 2 :: rat) \<le> 2 ^ nat n - 1" by simp
      with big show ?thesis by simp
    qed
    have d: "round64 ((2 ^ nat n - 1) / 2) = Finite ((2 ^ nat n - 1) / 2)"
      using m0 m53 big2 by (intro round64_exact [where m = ?m and q' = "- 1"]) (simp_all add: ofm)
    show ?thesis unfolding expBackoffCalc_def c p by (simp add: s d)
  qed
qed


lemma rne_up:
  assumes "of_int f \<le> x" "x < of_int f + 1"
    and "1 / 2 < x - of_int f \<or> (x - of_int f = 1 / 2 \<and> odd f)"
  shows "rne x = f + 1"
proof -
  from assms(1,2) have "\<lfloor>x\<rfloor> = f" by (intro floor_unique) simp_all
  with assms(3) show ?thesis by (auto simp add: rne_def Let_def)
qed

lemma rne_ge_floor: "\<lfloor>x\<rfloor> \<le> rne x"
  by (simp add: rne_def Let_def)

lemma round64_pow2_minus_1:
  assumes "54 \<le> n" "n \<le> 1023"
  shows "round64 (2 powi n - 1) = Finite (2 powi n)"
proof -
  let ?x = "2 powi n - 1 :: rat"
  have half: "(2::rat) powi n = 2 powi (n - 1) + 2 powi (n - 1)"
    using power_int_add_1 [of "2::rat" "n - 1"] by simp
  have ge1: "(1::rat) \<le> 2 powi (n - 1)" using assms(1) by (intro one_le_power_int) simp_all
  have lo: "2 powi (n - 1) \<le> ?x" using half ge1 by simp
  have hi: "?x < 2 powi (n - 1 + 1)" by simp
  have pos: "0 < ?x" using lo ge1 by simp
  have e: "ilog2 ?x = n - 1" using lo hi by (rule ilog2_eqI)
  have q: "max (ilog2 ?x - 52) (- 1074) = n - 53" using assms(1) by (simp add: e)
  let ?eps = "(2::rat) powi (53 - n)"
  have sc: "?x / 2 powi (n - 53) = 2 ^ 53 - ?eps"
  proof -
    have "?x / 2 powi (n - 53) = 2 powi n / 2 powi (n - 53) - 1 / 2 powi (n - 53)"
      by (simp add: diff_divide_distrib)
    also have "2 powi n / 2 powi (n - 53) = (2::rat) ^ 53"
      using power_int_diff [of "2::rat" n "n - 53"] by simp
    also have "1 / 2 powi (n - 53) = (2::rat) powi (53 - n)"
      using power_int_minus_divide [of "2::rat" "n - 53"] by simp
    finally show ?thesis .
  qed
  have eps0: "0 < ?eps" by simp
  have "?eps \<le> 2 powi (- 1)" using assms(1) by (intro power_int_increasing) simp_all
  then have eps1: "?eps \<le> 1 / 2" by simp
  have r: "rne (2 ^ 53 - ?eps) = (2 ^ 53 - 1) + 1"
  proof (rule rne_up)
    show "of_int (2 ^ 53 - 1) \<le> 2 ^ 53 - ?eps" using eps1 by simp
    show "2 ^ 53 - ?eps < of_int (2 ^ 53 - 1) + 1" using eps0 by simp
    show "1 / 2 < 2 ^ 53 - ?eps - of_int (2 ^ 53 - 1) \<or>
          (2 ^ 53 - ?eps - of_int (2 ^ 53 - 1) = 1 / 2 \<and> odd (2 ^ 53 - 1 :: int))"
      using eps1 by (cases "?eps = 1 / 2") simp_all
  qed
  have y: "of_int (rne (?x / 2 powi (n - 53))) * 2 powi (n - 53) = (2::rat) powi n"
  proof -
    have "of_int (rne (?x / 2 powi (n - 53))) * 2 powi (n - 53) = (2::rat) powi 53 * 2 powi (n - 53)"
      by (simp only: sc r) simp
    also have "\<dots> = 2 powi (53 + (n - 53))" using power_int_add [of "2::rat" 53 "n - 53"] by simp
    finally show ?thesis by simp
  qed
  have nov: "\<not> (2::rat) powi 1024 \<le> 2 powi n"
    using assms(2) by (simp only: not_le) (intro power_int_strict_increasing, simp_all)
  from pos have nz: "?x \<noteq> 0" and sg: "sgn ?x = 1" by simp_all
  show ?thesis
    by (simp only: round64_def Let_def abs_of_pos [OF pos] q y nz nov sg if_False mult_1)
qed

lemma expBackoffCalc_medium:
  assumes "54 \<le> n" "n \<le> 1023"
  shows "expBackoffCalc n = Finite (2 ^ nat (n - 1))"
proof -
  have "n < 2 ^ 53" using assms(2) by simp
  with assms have c: "float64_of_int n = Finite (of_int n)" by (intro float64_of_int_exact) simp_all
  have p: "math_Pow2 (Finite (of_int n)) = Finite (2 powi n)"
    using assms by (intro math_Pow2_exact) simp_all
  have s: "round64 (2 powi n - 1) = Finite (2 powi n)" using assms by (rule round64_pow2_minus_1)
  have h: "(2::rat) powi n / 2 = of_int 1 * 2 powi (n - 1)"
    using power_int_add_1 [of "2::rat" "n - 1"] by simp
  have "(2::rat) powi (n - 1) < 2 powi 1024" using assms(2) by (intro power_int_strict_increasing) simp_all
  then have "round64 (2 powi n / 2) = Finite (2 powi n / 2)"
    using assms(1) h by (intro round64_exact [where m = 1 and q' = "n - 1"]) simp_all
  then have d: "round64 (2 powi n / 2) = Finite (2 ^ nat (n - 1))"
    using assms(1) h by (simp add: power_int_nonneg_exp)
  show ?thesis unfolding expBackoffCalc_def c p by (simp add: s d)
qed

lemma float64_of_int_big:
  assumes "2 ^ 53 \<le> n"
  shows "float64_of_int n = PosInf \<or> (\<exists>k\<ge>1024. float64_of_int n = Finite (of_int k))"
proof -
  let ?x = "of_int n :: rat"
  have "(of_int (2 ^ 53) :: rat) \<le> of_int n" using assms by (simp only: of_int_le_iff)
  then have x53: "2 powi 53 \<le> ?x" by simp
  have "(0::rat) < 2 powi 53" by simp
  from this x53 have pos: "0 < ?x" by (rule less_le_trans)
  let ?e = "ilog2 ?x"
  from ilog2_bounds [OF pos] have b: "2 powi ?e \<le> ?x" "?x < 2 powi (?e + 1)" by simp_all
  from x53 b(2) have "(2::rat) powi 53 < 2 powi (?e + 1)" by simp
  then have e53: "53 \<le> ?e" using powi2_less_imp_less by fastforce
  let ?q = "?e - 52"
  have q: "max (?e - 52) (- 1074) = ?q" using e53 by simp
  let ?r = "rne (?x / 2 powi ?q)"
  have "(2::rat) powi 52 = 2 powi ?e / 2 powi ?q"
    using power_int_diff [of "2::rat" ?e ?q] by simp
  also have "\<dots> \<le> ?x / 2 powi ?q" using b(1) by (simp add: divide_right_mono)
  finally have "(of_int (2 ^ 52) :: rat) \<le> ?x / 2 powi ?q" by simp
  then have "2 ^ 52 \<le> \<lfloor>?x / 2 powi ?q\<rfloor>" by (simp only: le_floor_iff)
  from this rne_ge_floor [of "?x / 2 powi ?q"] have r52: "2 ^ 52 \<le> ?r" by (rule order_trans)
  let ?k = "?r * 2 ^ nat ?q"
  have "(1::int) \<le> 2 ^ nat ?q" by simp
  with r52 have "2 ^ 52 * 1 \<le> ?k" by (intro mult_mono) simp_all
  then have k: "1024 \<le> ?k" by simp
  have y: "of_int ?r * 2 powi ?q = (of_int ?k :: rat)"
    using e53 by (simp add: power_int_nonneg_exp)
  from pos have nz: "?x \<noteq> 0" and sg: "sgn ?x = 1" by simp_all
  have "round64 ?x = (if 2 powi 1024 \<le> (of_int ?k :: rat) then PosInf else Finite (of_int ?k))"
    by (simp only: round64_def Let_def abs_of_pos [OF pos] q y nz pos sg if_False if_True mult_1)
  with k show ?thesis unfolding float64_of_int_def by (metis (full_types))
qed

lemma expBackoffCalc_large:
  assumes "1024 \<le> n"
  shows "expBackoffCalc n = PosInf"
proof -
  have "math_Pow2 (float64_of_int n) = PosInf"
  proof (cases "n < 2 ^ 53")
    case True
    with assms have "float64_of_int n = Finite (of_int n)" by (intro float64_of_int_exact) simp_all
    with assms show ?thesis by simp
  next
    case False
    then have "2 ^ 53 \<le> n" by simp
    from float64_of_int_big [OF this] show ?thesis by auto
  qed
  then show ?thesis by (simp add: expBackoffCalc_def)
qed


lemma expBackoffCalc_finite:
  assumes "0 \<le> n" "n \<le> 1023"
  shows "\<exists>v. expBackoffCalc n = Finite v \<and> 2 powi n - 1 \<le> 2 * v \<and> 2 * v \<le> 2 powi n"
proof (cases "n \<le> 53")
  case True
  with assms(1) have "expBackoffCalc n = Finite ((2 ^ nat n - 1) / 2)" by (rule expBackoffCalc_small)
  moreover have "(2::rat) powi n = 2 ^ nat n" using assms(1) by (simp add: power_int_nonneg_exp)
  ultimately show ?thesis by (intro exI [of _ "(2 ^ nat n - 1) / 2"]) simp
next
  case False
  then have n: "54 \<le> n" by simp
  from n assms(2) have "expBackoffCalc n = Finite (2 ^ nat (n - 1))" by (rule expBackoffCalc_medium)
  moreover have "(2::rat) powi n = 2 * 2 ^ nat (n - 1)"
    using n power_int_add_1 [of "2::rat" "n - 1"] by (simp add: power_int_nonneg_exp)
  ultimately show ?thesis by (intro exI [of _ "2 ^ nat (n - 1)"]) simp
qed

lemma expBackoffCalc_nonneg:
  assumes "0 \<le> n"
  shows "f64_le (Finite 0) (expBackoffCalc n)"
proof (cases "n \<le> 1023")
  case True
  from expBackoffCalc_finite [OF assms True] obtain v where
    v: "expBackoffCalc n = Finite v" "2 powi n - 1 \<le> 2 * v" by blast
  have "(1::rat) \<le> 2 powi n" using assms by (intro one_le_power_int) simp_all
  with v(2) have "0 \<le> v" by simp
  with v(1) show ?thesis by simp
next
  case False
  then have "expBackoffCalc n = PosInf" by (intro expBackoffCalc_large) simp
  then show ?thesis by simp
qed

lemma expBackoffCalc_strict:
  assumes "0 \<le> a" "a < b" "b \<le> 1024"
  shows "f64_less (expBackoffCalc a) (expBackoffCalc b)"
proof -
  from assms have a: "a \<le> 1023" by simp
  from expBackoffCalc_finite [OF assms(1) a] obtain va where
    va: "expBackoffCalc a = Finite va" "2 * va \<le> 2 powi a" "2 powi a - 1 \<le> 2 * va" by blast
  show ?thesis
  proof (cases "b = 1024")
    case True
    then have "expBackoffCalc b = PosInf" by (intro expBackoffCalc_large) simp
    with va(1) show ?thesis by simp
  next
    case False
    with assms have b: "0 \<le> b" "b \<le> 1023" by simp_all
    from expBackoffCalc_finite [OF b] obtain vb where
      vb: "expBackoffCalc b = Finite vb" "2 powi b - 1 \<le> 2 * vb" by blast
    have "(2::rat) powi (a + 1) \<le> 2 powi b" using assms(2) by (intro power_int_increasing) simp_all
    then have ab: "2 * 2 powi a \<le> (2::rat) powi b" by (simp add: power_int_add_1)
    have "2 * va < 2 * vb"
    proof (cases "a = 0")
      case True
      with expBackoffCalc_small [of 0] va(1) have "va = 0" by simp
      moreover have "2 * 1 \<le> (2::rat) powi b" using ab True by simp
      ultimately show ?thesis using vb(2) by simp
    next
      case False
      with assms(1) have "0 < a" by simp
      then have "(1::rat) < 2 powi a" by (intro one_less_power_int) simp_all
      with va(2) vb(2) ab show ?thesis by simp
    qed
    with va(1) vb(1) show ?thesis by simp
  qed
qed

text \<open>
  C4. For 0 \<le> attempts \<le> 53 the calculator returns exactly (2^attempts - 1) / 2, so 0
  at 0 and 127.5 at 8; for 54 \<le> attempts \<le> 1023 it returns 2^(attempts - 1), and from
  1024 on \<open>+Inf\<close>. It is non-negative for every attempts \<ge> 0 and strictly increasing
  as long as the larger argument is at most 1024.
\<close>

theorem expBackoffCalc_float64:
  "(0 \<le> n \<and> n \<le> 53 \<longrightarrow> expBackoffCalc n = Finite ((2 ^ nat n - 1) / 2)) \<and>
   (54 \<le> n \<and> n \<le> 1023 \<longrightarrow> expBackoffCalc n = Finite (2 ^ nat (n - 1))) \<and>
   (1024 \<le> n \<longrightarrow> expBackoffCalc n = PosInf) \<and>
   expBackoffCalc 0 = Finite 0 \<and> expBackoffCalc 8 = Finite (255 / 2) \<and>
   (0 \<le> n \<longrightarrow> f64_le (Finite 0) (expBackoffCalc n)) \<and>
   (0 \<le> a \<and> a < b \<and> b \<le> 1024 \<longrightarrow> f64_less (expBackoffCalc a) (expBackoffCalc b))"
proof (intro conjI impI)
  show "expBackoffCalc 0 = Finite 0" using expBackoffCalc_small [of 0] by simp
  show "expBackoffCalc 8 = Finite (255 / 2)" using expBackoffCalc_small [of 8] by simp
qed (simp_all add: expBackoffCalc_small expBackoffCalc_medium expBackoffCalc_large
    expBackoffCalc_nonneg expBackoffCalc_strict)

theorem expBackoffCalc_float64_witness:
  "expBackoffCalc 8 = Finite (255 / 2) \<and> expBackoffCalc 100 = Finite (2 ^ 99) \<and>
   expBackoffCalc 2000 = PosInf \<and> f64_le (Finite 0) (expBackoffCalc 8) \<and>
   f64_less (expBackoffCalc 3) (expBackoffCalc 4)"
  using expBackoffCalc_float64 [of 8 3 4] expBackoffCalc_float64 [of 100 3 4]
    expBackoffCalc_float64 [of 2000 3 4]
  by simp

text \<open>
  At 54 the result is 2^53, not (2^54 - 1) / 2; at 1024 and 1025 it is \<open>+Inf\<close> both
  times, so it does not increase there.
\<close>

theorem expBackoffCalc_rounds_at_54:
  "expBackoffCalc 54 = Finite 9007199254740992 \<and>
   (9007199254740992 :: rat) \<noteq> (2 ^ 54 - 1) / 2 \<and>
   expBackoffCalc 1024 = PosInf \<and> expBackoffCalc 1025 = PosInf \<and>
   \<not> f64_less (expBackoffCalc 1024) (expBackoffCalc 1025)"
  using expBackoffCalc_medium [of 54] expBackoffCalc_large [of 1024] expBackoffCalc_large [of 1025]
  by simp

section \<open>The link of a relation\<close>

lemma first_with_rel_none:
  "\<forall>link\<in>set links. link_Rel link \<noteq> command \<Longrightarrow> first_with_rel links command = []"
  by (induction links) auto

lemma first_with_rel_some:
  "\<exists>link\<in>set links. link_Rel link = command \<Longrightarrow>
   \<exists>before link after. links = before @ link # after \<and>
     (\<forall>l\<in>set before. link_Rel l \<noteq> command) \<and> link_Rel link = command \<and>
     first_with_rel links command = link_URL link"
proof (induction links)
  case Nil
  then show ?case by simp
next
  case (Cons l links)
  show ?case
  proof (cases "link_Rel l = command")
    case True
    then have "l # links = [] @ l # links \<and> (\<forall>x\<in>set []. link_Rel x \<noteq> command) \<and>
        link_Rel l = command \<and> first_with_rel (l # links) command = link_URL l"
      by simp
    then show ?thesis by blast
  next
    case False
    with Cons.prems have "\<exists>link\<in>set links. link_Rel link = command" by auto
    from Cons.IH [OF this] obtain before link after where
      h: "links = before @ link # after" "\<forall>x\<in>set before. link_Rel x \<noteq> command"
         "link_Rel link = command" "first_with_rel links command = link_URL link"
      by blast
    with False have "l # links = (l # before) @ link # after \<and>
        (\<forall>x\<in>set (l # before). link_Rel x \<noteq> command) \<and> link_Rel link = command \<and>
        first_with_rel (l # links) command = link_URL link"
      by simp
    then show ?thesis by blast
  qed
qed

text \<open>
  C9. Whatever \<open>linkheader.Parse\<close> makes of the header: when a parsed link has the
  requested relation, HeaderLink returns the URL of the first such link; when none has,
  and so when nothing was parsed, it returns the empty string; for the two links of the
  spec's example and the relation "next" it returns "https://x/2". HeaderLink has no
  error result and no failing step.
\<close>

theorem HeaderLink_first_match:
  "((\<exists>link\<in>set (Parse linkHeader). link_Rel link = command) \<longrightarrow>
      (\<exists>before link after. Parse linkHeader = before @ link # after \<and>
         (\<forall>l\<in>set before. link_Rel l \<noteq> command) \<and> link_Rel link = command \<and>
         HeaderLink Parse linkHeader command = link_URL link)) \<and>
   ((\<forall>link\<in>set (Parse linkHeader). link_Rel link \<noteq> command) \<longrightarrow>
      HeaderLink Parse linkHeader command = []) \<and>
   (Parse linkHeader = [] \<longrightarrow> HeaderLink Parse linkHeader command = []) \<and>
   (Parse linkHeader =
      [\<lparr>link_URL = ''https://x/2'', link_Rel = ''next''\<rparr>,
       \<lparr>link_URL = ''https://x/1'', link_Rel = ''prev''\<rparr>] \<longrightarrow>
      HeaderLink Parse linkHeader ''next'' = ''https://x/2'')"
  unfolding HeaderLink_def
  using first_with_rel_some [of "Parse linkHeader" command]
    first_with_rel_none [of "Parse linkHeader" command]
  by auto

theorem HeaderLink_first_match_witness:
  \<open>HeaderLink example_Parse ''<https://x/2>; rel="next", <https://x/1>; rel="prev"'' ''next'' =
     ''https://x/2'' \<and>
   HeaderLink example_Parse ''<https://x/2>; rel="next", <https://x/1>; rel="prev"'' ''prev'' =
     ''https://x/1'' \<and>
   HeaderLink example_Parse ''<https://x/2>; rel="next", <https://x/1>; rel="prev"'' ''last'' = [] \<and>
   HeaderLink example_Parse ''no link here'' ''next'' = []\<close>
  using HeaderLink_first_match [of example_Parse \<open>''<https://x/2>; rel="next", <https://x/1>; rel="prev"''\<close> "''next''"]
    HeaderLink_first_match [of example_Parse \<open>''<https://x/2>; rel="next", <https://x/1>; rel="prev"''\<close> "''prev''"]
    HeaderLink_first_match [of example_Parse \<open>''<https://x/2>; rel="next", <https://x/1>; rel="prev"''\<close> "''last''"]
    HeaderLink_first_match [of example_Parse "''no link here''" "''next''"]
  by (auto simp add: example_Parse_def Cons_eq_append_conv)


end
